theory Spec2Isabelle
  imports
    Main
    "HOL-Library.Char_ord"
    "HOL-Library.List_Lexorder"
    "HOL-Library.Option_ord"
    "HOL-Library.AList"
begin

section \<open>Python strings\<close>

text \<open>
  The crawler is Python 2. Its strings are modelled as \<^typ>\<open>string\<close>, one
  \<^typ>\<open>char\<close> per character; the operations below are the ASCII behaviour of
  \<^verbatim>\<open>str.lower\<close>, \<^verbatim>\<open>str.split()\<close> and \<^verbatim>\<open>x in s\<close>.
\<close>

definition isupper :: "char \<Rightarrow> bool" where
  "isupper c = (65 \<le> (of_char c :: nat) \<and> (of_char c :: nat) \<le> 90)"

text \<open>The six characters \<^verbatim>\<open>isspace\<close> accepts: space, tab, newline, vertical tab,
  form feed, carriage return.\<close>

definition isspace :: "char \<Rightarrow> bool" where
  "isspace c = ((of_char c :: nat) = 32 \<or> (9 \<le> (of_char c :: nat) \<and> (of_char c :: nat) \<le> 13))"

definition lower_char :: "char \<Rightarrow> char" where
  "lower_char c = (if isupper c then char_of ((of_char c :: nat) + 32) else c)"

definition lower :: "string \<Rightarrow> string" where
  "lower s = map lower_char s"

text \<open>\<^verbatim>\<open>s.split()\<close>: the maximal runs of non-whitespace characters, in order; the
  first argument is the run being read.\<close>

fun split_from :: "string \<Rightarrow> string \<Rightarrow> string list" where
  "split_from cur [] = (if cur = [] then [] else [cur])"
| "split_from cur (c # cs) =
     (if isspace c then (if cur = [] then split_from [] cs else cur # split_from [] cs)
      else split_from (cur @ [c]) cs)"

definition split :: "string \<Rightarrow> string list" where
  "split s = split_from [] s"

fun startswith :: "string \<Rightarrow> string \<Rightarrow> bool" where
  "startswith s [] = True"
| "startswith [] (p # ps) = False"
| "startswith (c # cs) (p # ps) = (c = p \<and> startswith cs ps)"

text \<open>\<^verbatim>\<open>x in s\<close> on two strings: \<open>x\<close> occurs in \<open>s\<close> as a contiguous run.\<close>

fun contains :: "string \<Rightarrow> string \<Rightarrow> bool" where
  "contains x [] = (x = [])"
| "contains x (c # cs) = (startswith (c # cs) x \<or> contains x cs)"

text \<open>\<^verbatim>\<open>any(i in s for i in pats)\<close>.\<close>

definition any_in :: "string list \<Rightarrow> string \<Rightarrow> bool" where
  "any_in pats s = list_ex (\<lambda>i. contains i s) pats"

section \<open>Shot discovery\<close>

text \<open>
  \<^verbatim>\<open>getShotList\<close>. \<open>listing\<close> is what \<^verbatim>\<open>os.listdir\<close> returns for the show
  directory, \<open>None\<close> when it raises (the bare \<^verbatim>\<open>except\<close> then logs and uses the
  empty list). \<open>includeShots\<close> and \<open>excludeShots\<close> are the option texts; the empty
  text stands for every falsy value, the default \<^verbatim>\<open>[]\<close> of \<^verbatim>\<open>--include\<close>
  included. The include stage and the exclude stage are the two \<^verbatim>\<open>if\<close>
  statements of the method.
\<close>

definition listdir_or_empty :: "string list option \<Rightarrow> string list" where
  "listdir_or_empty listing = (case listing of None \<Rightarrow> [] | Some l \<Rightarrow> l)"

definition include_stage :: "string list \<Rightarrow> string \<Rightarrow> string \<Rightarrow> string list" where
  "include_stage shotList includeShots shot =
     (if includeShots \<noteq> [] then
        (if \<not> contains ''all'' (lower includeShots)
         then filter (\<lambda>s. any_in (split includeShots) s) shotList
         else shotList)
      else [shot])"

definition exclude_stage :: "string list \<Rightarrow> string \<Rightarrow> string list" where
  "exclude_stage shotList excludeShots =
     (if excludeShots \<noteq> [] \<and> ''none'' \<noteq> lower excludeShots
      then filter (\<lambda>s. \<not> any_in (split excludeShots) s) shotList
      else shotList)"

definition getShotList :: "string list option \<Rightarrow> string \<Rightarrow> string \<Rightarrow> string \<Rightarrow> string list" where
  "getShotList listing includeShots excludeShots shot =
     exclude_stage (include_stage (listdir_or_empty listing) includeShots shot) excludeShots"

section \<open>Documents and records\<close>

text \<open>
  What \<^verbatim>\<open>minidom\<close> hands to the crawler: an element has a tag, attributes and
  child nodes; every other node (text between tags, a comment) has no attributes at
  all. A document is the list of its top-level nodes.
\<close>

datatype node = Element string "(string \<times> string) list" "node list" | Text string

type_synonym document = "node list"

text \<open>\<^verbatim>\<open>getElementsByTagName\<close>: every element below with the tag, in document
  order, an element before its descendants.\<close>

fun elementsByTagName :: "string \<Rightarrow> node \<Rightarrow> node list" where
  "elementsByTagName tg (Text t) = []"
| "elementsByTagName tg (Element tg' as cs) =
     (if tg' = tg then [Element tg' as cs] else []) @ concat (map (elementsByTagName tg) cs)"

definition getElementsByTagName :: "string \<Rightarrow> document \<Rightarrow> node list" where
  "getElementsByTagName tg doc = concat (map (elementsByTagName tg) doc)"

datatype error = AttributeError | IndexError | ValueError | TypeError | OperationalError

text \<open>\<^verbatim>\<open>node.getAttribute(k)\<close>: the empty string for an attribute the element does
  not have; a node that is not an element has no such method.\<close>

fun getAttribute :: "node \<Rightarrow> string \<Rightarrow> error + string" where
  "getAttribute (Element tg as cs) k = Inr (case map_of as k of None \<Rightarrow> [] | Some v \<Rightarrow> v)"
| "getAttribute (Text t) k = Inl AttributeError"

text \<open>A record is a Python dictionary from field names to values, kept as the list
  of its entries with one entry for a key. \<^verbatim>\<open>d.get(k)\<close> is \<open>get d k\<close>, with
  \<open>None\<close> for Python's \<^verbatim>\<open>None\<close>; \<^verbatim>\<open>d.update({k: v})\<close> is
  \<open>AList.update k v d\<close>.\<close>

datatype pyval = Str string | Bool bool

type_synonym pydict = "(string \<times> pyval) list"

definition get :: "pydict \<Rightarrow> string \<Rightarrow> pyval option" where
  "get d k = map_of d k"

text \<open>
  The body of the \<^verbatim>\<open>try\<close> block of \<^verbatim>\<open>getObjInfo\<close>: \<open>Inl\<close> is the exception
  it raises. The version fields are stored as the attribute texts; only the
  comparison reads them as integers. \<^verbatim>\<open>int\<close> is Python's own and is a parameter
  here: \<open>toInt s\<close> is the integer \<^verbatim>\<open>int(s)\<close> returns, \<open>None\<close> when it raises.
  Which texts it accepts (blanks and digits beyond ASCII among them) is the
  interpreter's matter; the crawler only uses the outcome.
\<close>

definition getObjInfo_try :: "(string \<Rightarrow> int option) \<Rightarrow> node \<Rightarrow> error + pydict" where
  "getObjInfo_try toInt obj =
     (case getAttribute obj ''name'' of Inl e \<Rightarrow> Inl e | Inr name \<Rightarrow>
      (case obj of Text t \<Rightarrow> Inl AttributeError | Element tg as childNodes \<Rightarrow>
       (case childNodes of [] \<Rightarrow> Inl IndexError | attrs # rest \<Rightarrow>
        (case getAttribute attrs ''shotVer'' of Inl e \<Rightarrow> Inl e | Inr shotVer \<Rightarrow>
         (case getAttribute attrs ''objName'' of Inl e \<Rightarrow> Inl e | Inr objProd \<Rightarrow>
          (case getAttribute attrs ''objHighest'' of Inl e \<Rightarrow> Inl e | Inr objHighest \<Rightarrow>
           (case getAttribute attrs ''objVer'' of Inl e \<Rightarrow> Inl e | Inr objVer \<Rightarrow>
            (case getAttribute attrs ''mb'' of Inl e \<Rightarrow> Inl e | Inr maya_file \<Rightarrow>
             (case toInt objHighest of None \<Rightarrow> Inl ValueError | Some h \<Rightarrow>
              (case toInt objVer of None \<Rightarrow> Inl ValueError | Some v \<Rightarrow>
                 Inr [(''name'', Str name),
                      (''shotVer'', Str shotVer),
                      (''mb'', Str maya_file),
                      (''objName'', Str objProd),
                      (''objVer'', Str objVer),
                      (''objHighest'', Str objHighest),
                      (''ood'', Bool (if h > v then True else False))]))))))))))"

text \<open>
  What the crawler writes: lines printed to the terminal and calls of the loggers.
\<close>

datatype level = ERROR | INFO | DEBUG

datatype line =
    Planning nat
  | Header
  | ShotName string
  | Item pydict
  | Sql string
  | Log level string

text \<open>\<^verbatim>\<open>getObjInfo\<close>: the bare \<^verbatim>\<open>except\<close> turns every exception of the body
  into a log call and the empty dictionary. The log text is kept without the
  printed form of the node, which holds a memory address.\<close>

definition getObjInfo :: "(string \<Rightarrow> int option) \<Rightarrow> node \<Rightarrow> line list \<times> pydict" where
  "getObjInfo toInt obj =
     (case getObjInfo_try toInt obj of
        Inl e \<Rightarrow> ([Log INFO ''not valid.''], [])
      | Inr d \<Rightarrow> ([], d))"

section \<open>The store\<close>

text \<open>
  The database file holds at most the one table the crawler uses. A table is the
  statement that created it and its rows; \<open>Present None\<close> is a file without the
  table. The SQLite engine is not part of the crawler and is a parameter:
  \<open>engine rs sql\<close> is the rows the statement \<open>sql\<close> adds to a table that holds the
  rows \<open>rs\<close>, \<open>None\<close> when the engine rejects the statement and \<^verbatim>\<open>execute\<close>
  raises. Every statement of the crawler starts with \<^verbatim>\<open>INSERT INTO entities VALUES\<close>,
  so it adds rows and changes none; what it adds may depend on the rows it finds,
  those of the open transaction included.
\<close>

record 'r table =
  schema :: string
  rows :: "'r list"

datatype 'r dbfile = Absent | Present "'r table option"

definition create_sql :: string where
  "create_sql = ''CREATE TABLE entities('' @
                ''shot text, name TEXT, objProd TEXT, '' @
                ''shotVer INT, objVer INT, objHighest INT, ood text, '' @
                ''mayafile text)''"

text \<open>\<^verbatim>\<open>dbConnect\<close>: the table is created only when the file did not exist.\<close>

definition dbConnect :: "'r dbfile \<Rightarrow> 'r dbfile" where
  "dbConnect dblite =
     (case dblite of
        Absent \<Rightarrow> Present (Some \<lparr>schema = create_sql, rows = []\<rparr>)
      | Present t \<Rightarrow> Present t)"

text \<open>\<^verbatim>\<open>"%s" % v\<close>.\<close>

fun py_str :: "pyval option \<Rightarrow> string" where
  "py_str None = ''None''"
| "py_str (Some (Str s)) = s"
| "py_str (Some (Bool b)) = (if b then ''True'' else ''False'')"

definition insert_values :: "pydict \<Rightarrow> string list" where
  "insert_values char =
     [py_str (get char ''shot''),
      py_str (get char ''name''),
      py_str (get char ''objProd''),
      py_str (get char ''shotVer''),
      py_str (get char ''objVer''),
      py_str (get char ''objHighest''),
      py_str (get char ''ood''),
      py_str (get char ''mb'')]"

definition quoted :: "string \<Rightarrow> string" where
  "quoted v = [CHR 0x22] @ v @ [CHR 0x22]"

fun join :: "string \<Rightarrow> string list \<Rightarrow> string" where
  "join sep [] = []"
| "join sep [v] = v"
| "join sep (v # w # vs) = v @ sep @ join sep (w # vs)"

definition insert_sql :: "pydict \<Rightarrow> string" where
  "insert_sql char =
     ''INSERT INTO entities VALUES ('' @ join '', '' (map quoted (insert_values char)) @ '')''"

definition execute ::
  "('r list \<Rightarrow> string \<Rightarrow> 'r list option) \<Rightarrow> 'r dbfile \<Rightarrow> 'r list \<Rightarrow> string \<Rightarrow> error + 'r list" where
  "execute engine db pending sql =
     (case db of
        Present (Some t) \<Rightarrow>
          (case engine (rows t @ pending) sql of
             None \<Rightarrow> Inl OperationalError
           | Some rs \<Rightarrow> Inr rs)
      | _ \<Rightarrow> Inl OperationalError)"

text \<open>
  The loop \<^verbatim>\<open>for char in objData: self.db.insert(char)\<close>: each statement is
  printed, then executed on the table and the rows \<open>pending\<close> of the transaction;
  the result is the rows waiting for the commit, or the exception that ends the
  loop.
\<close>

fun insert_all ::
  "('r list \<Rightarrow> string \<Rightarrow> 'r list option) \<Rightarrow> 'r dbfile \<Rightarrow> 'r list \<Rightarrow> pydict list
     \<Rightarrow> line list \<times> (error + 'r list)" where
  "insert_all engine db pending [] = ([], Inr pending)"
| "insert_all engine db pending (char # rest) =
     (case execute engine db pending (insert_sql char) of
        Inl e \<Rightarrow> ([Sql (insert_sql char)], Inl e)
      | Inr rs \<Rightarrow>
          (case insert_all engine db (pending @ rs) rest of
             (ls, r) \<Rightarrow> (Sql (insert_sql char) # ls, r)))"

definition commit :: "'r dbfile \<Rightarrow> 'r list \<Rightarrow> 'r dbfile" where
  "commit db pending =
     (case db of
        Present (Some t) \<Rightarrow> Present (Some (t\<lparr>rows := rows t @ pending\<rparr>))
      | _ \<Rightarrow> db)"

section \<open>The crawl\<close>

text \<open>
  What the crawler takes from its interpreter and libraries: Python's \<^verbatim>\<open>int\<close> and
  the SQLite engine.
\<close>

record 'r runtime =
  to_int :: "string \<Rightarrow> int option"
  sql_insert :: "'r list \<Rightarrow> string \<Rightarrow> 'r list option"

text \<open>
  The file system as the crawler sees it: \<open>listdir\<close> is \<^verbatim>\<open>os.listdir\<close> and
  \<open>parse\<close> is \<^verbatim>\<open>minidom.parse\<close>, both by path; \<open>None\<close> and \<open>Inl\<close> (with the
  exception's text) are the calls that raise.
\<close>

record world =
  listdir :: "string \<Rightarrow> string list option"
  parse :: "string \<Rightarrow> string + document"

text \<open>The command line, and the fields \<^verbatim>\<open>__init__\<close> sets from it.\<close>

record args =
  arg_show :: string
  arg_shot :: string
  arg_include :: string
  arg_exclude :: string
  arg_objects :: "string list"
  arg_verbose :: bool
  arg_db :: bool

record crawler =
  showname :: string
  shot :: string
  shotList :: "string list"
  objects :: "string list"
  verbose :: bool
  useDB :: bool

definition SHOTLOCATION :: string where
  "SHOTLOCATION = ''./''"

definition showDir :: "string \<Rightarrow> string" where
  "showDir sh = SHOTLOCATION @ ''/'' @ sh"

definition xmlFile :: "string \<Rightarrow> string \<Rightarrow> string" where
  "xmlFile sh s = SHOTLOCATION @ ''/'' @ sh @ ''/'' @ s @ ''/'' @ s @ ''.xml''"

text \<open>\<^verbatim>\<open>__init__\<close>; \<open>None\<close> is \<^verbatim>\<open>sys.exit()\<close>.\<close>

definition ExCrawler :: "world \<Rightarrow> args \<Rightarrow> line list \<times> crawler option" where
  "ExCrawler w a =
     (if arg_show a = [] then ([Log ERROR ''Please setshot first''], None)
      else
        ((case listdir w (showDir (arg_show a)) of
            None \<Rightarrow> [Log ERROR ''Shot issues.'']
          | Some l \<Rightarrow> []),
         Some \<lparr>showname = arg_show a,
               shot = arg_shot a,
               shotList = getShotList (listdir w (showDir (arg_show a)))
                            (arg_include a) (arg_exclude a) (arg_shot a),
               objects = arg_objects a,
               verbose = arg_verbose a,
               useDB = arg_db a\<rparr>))"

text \<open>
  \<^verbatim>\<open>shotXML_objectsGet\<close>. \<^verbatim>\<open>pool.map\<close> returns the results in the order of its
  inputs, whatever the order the two workers finish in, so it is \<^const>\<open>map\<close>. The
  result is \<open>None\<close> for the bare \<^verbatim>\<open>return\<close>; an exception of
  \<^verbatim>\<open>insert\<close> leaves the method before the commit, and the rows of the batch are
  lost with it.
\<close>

definition shotXML_objectsGet ::
  "'r runtime \<Rightarrow> world \<Rightarrow> crawler \<Rightarrow> string \<Rightarrow> 'r dbfile
     \<Rightarrow> line list \<times> (error + pydict list option) \<times> 'r dbfile" where
  "shotXML_objectsGet rt w c s db =
     (case parse w (xmlFile (showname c) s) of
        Inl e \<Rightarrow> ([Log ERROR (''ShotXML '' @ s @ '' parsing error: '' @ e)], Inr None, db)
      | Inr shotXML \<Rightarrow>
          (let childList = getElementsByTagName ''Object'' shotXML;
               results = map (getObjInfo (to_int rt)) childList;
               objData = map (AList.update ''shot'' (Str s)) (map snd results);
               logs = Log INFO (''Checking xml: '' @ xmlFile (showname c) s) # concat (map fst results)
           in if useDB c then
                (case insert_all (sql_insert rt) db [] objData of
                   (ls, Inl e) \<Rightarrow> (logs @ ls, Inl e, db)
                 | (ls, Inr pending) \<Rightarrow> (logs @ ls, Inr (Some objData), commit db pending))
              else (logs, Inr (Some objData), db)))"

text \<open>\<^verbatim>\<open>shotObjects\<close>: \<^verbatim>\<open>None\<close> and the empty list both become the empty
  result.\<close>

definition shotObjects ::
  "'r runtime \<Rightarrow> world \<Rightarrow> crawler \<Rightarrow> string \<Rightarrow> 'r dbfile
     \<Rightarrow> line list \<times> (error + pydict list) \<times> 'r dbfile" where
  "shotObjects rt w c s db =
     (case shotXML_objectsGet rt w c s db of
        (ls, Inl e, db') \<Rightarrow> (Log DEBUG (CHR 0x0A # ''Checking: '' @ s) # ls, Inl e, db')
      | (ls, Inr None, db') \<Rightarrow> (Log DEBUG (CHR 0x0A # ''Checking: '' @ s) # ls, Inr [], db')
      | (ls, Inr (Some shotData), db') \<Rightarrow> (Log DEBUG (CHR 0x0A # ''Checking: '' @ s) # ls, Inr shotData, db'))"

text \<open>
  The object filter. \<^verbatim>\<open>obj in v\<close> raises \<^verbatim>\<open>TypeError\<close> unless \<open>v\<close> is a
  string; \<^verbatim>\<open>any\<close> stops at the first true test, \<^verbatim>\<open>or\<close> does not evaluate its
  right side when the left is true.
\<close>

fun py_in :: "string \<Rightarrow> pyval option \<Rightarrow> error + bool" where
  "py_in x (Some (Str s)) = Inr (contains x s)"
| "py_in x (Some (Bool b)) = Inl TypeError"
| "py_in x None = Inl TypeError"

fun any_obj_in :: "string list \<Rightarrow> pyval option \<Rightarrow> error + bool" where
  "any_obj_in [] v = Inr False"
| "any_obj_in (obj # objs) v =
     (case py_in obj v of
        Inl e \<Rightarrow> Inl e
      | Inr b \<Rightarrow> if b then Inr True else any_obj_in objs v)"

definition keeps :: "string list \<Rightarrow> pydict \<Rightarrow> error + bool" where
  "keeps objs ob =
     (case any_obj_in objs (get ob ''objName'') of
        Inl e \<Rightarrow> Inl e
      | Inr b \<Rightarrow> if b then Inr True else any_obj_in objs (get ob ''name''))"

fun filter_objects :: "string list \<Rightarrow> pydict list \<Rightarrow> error + pydict list" where
  "filter_objects objs [] = Inr []"
| "filter_objects objs (ob # obs) =
     (case keeps objs ob of
        Inl e \<Rightarrow> Inl e
      | Inr b \<Rightarrow>
          (case filter_objects objs obs of
             Inl e \<Rightarrow> Inl e
           | Inr kept \<Rightarrow> Inr (if b then ob # kept else kept)))"

definition cull :: "string list \<Rightarrow> pydict list \<Rightarrow> error + pydict list" where
  "cull objs obs = (if objs \<noteq> [] then filter_objects objs obs else Inr obs)"

text \<open>The sort key \<^verbatim>\<open>k.get('name')\<close>: a string, or \<^verbatim>\<open>None\<close>, which Python 2
  orders before every string.\<close>

definition name_key :: "pydict \<Rightarrow> string option" where
  "name_key k = (case get k ''name'' of Some (Str n) \<Rightarrow> Some n | _ \<Rightarrow> None)"

text \<open>
  One turn of the loop of \<^verbatim>\<open>findShotsWithObjects\<close>: what it prints, the exception
  that ends the run if there is one, and the database file afterwards.
\<close>

definition shot_section ::
  "'r runtime \<Rightarrow> world \<Rightarrow> crawler \<Rightarrow> string \<Rightarrow> 'r dbfile
     \<Rightarrow> line list \<times> error option \<times> 'r dbfile" where
  "shot_section rt w c s db =
     (let top = Header # (if \<not> verbose c then [ShotName s] else [])
      in case shotObjects rt w c s db of
           (ls, Inl e, db') \<Rightarrow> (top @ ls, Some e, db')
         | (ls, Inr obs, db') \<Rightarrow>
             (case cull (objects c) obs of
                Inl e \<Rightarrow> (top @ ls, Some e, db')
              | Inr [] \<Rightarrow> (top @ ls, None, db')
              | Inr (ob # obs') \<Rightarrow>
                  (top @ ls @ map Item (sort_key name_key (ob # obs')), None, db')))"

fun shots_loop ::
  "'r runtime \<Rightarrow> world \<Rightarrow> crawler \<Rightarrow> string list \<Rightarrow> 'r dbfile
     \<Rightarrow> line list \<times> error option \<times> 'r dbfile" where
  "shots_loop rt w c [] db = ([], None, db)"
| "shots_loop rt w c (s # rest) db =
     (case shot_section rt w c s db of
        (ls, Some e, db') \<Rightarrow> (ls, Some e, db')
      | (ls, None, db') \<Rightarrow>
          (case shots_loop rt w c rest db' of
             (ls', r, db'') \<Rightarrow> (ls @ ls', r, db'')))"

definition findShotsWithObjects ::
  "'r runtime \<Rightarrow> world \<Rightarrow> crawler \<Rightarrow> 'r dbfile
     \<Rightarrow> line list \<times> error option \<times> 'r dbfile" where
  "findShotsWithObjects rt w c db =
     (let top = Planning (length (shotList c)) #
                  (if useDB c then [Log DEBUG ''Using database''] else []);
          db0 = (if useDB c then dbConnect db else db)
      in case shots_loop rt w c (sort (shotList c)) db0 of
           (ls, r, db') \<Rightarrow> (top @ ls, r, db'))"

text \<open>\<^verbatim>\<open>main\<close>: one run of the program on a file system and a database file.\<close>

definition main :: "'r runtime \<Rightarrow> world \<Rightarrow> args \<Rightarrow> 'r dbfile
     \<Rightarrow> line list \<times> error option \<times> 'r dbfile" where
  "main rt w a db =
     (case ExCrawler w a of
        (ls, None) \<Rightarrow> (ls, None, db)
      | (ls, Some c) \<Rightarrow>
          (case findShotsWithObjects rt w c db of
             (ls', r, db') \<Rightarrow> (ls @ ls', r, db')))"

section \<open>Reading a report\<close>

text \<open>The record lines of a report and its shot-name lines, in the order printed.\<close>

fun items :: "line list \<Rightarrow> pydict list" where
  "items [] = []"
| "items (Item it # ls) = it # items ls"
| "items (l # ls) = items ls"

fun shot_names :: "line list \<Rightarrow> string list" where
  "shot_names [] = []"
| "shot_names (ShotName s # ls) = s # shot_names ls"
| "shot_names (l # ls) = shot_names ls"

text \<open>The rows of the crawler's table in a database file.\<close>

fun stored :: "'r dbfile \<Rightarrow> 'r list" where
  "stored (Present (Some t)) = rows t"
| "stored db = []"

section \<open>Example inputs\<close>

text \<open>
  The show \<^verbatim>\<open>demo\<close>: shot \<^verbatim>\<open>shotA\<close> holds the object \<^verbatim>\<open>charA\<close> (version 4 of
  5) and an object entry with no child element; the document of \<^verbatim>\<open>shotB\<close> has no
  object entry; \<^verbatim>\<open>shotC\<close> has no readable document; \<^verbatim>\<open>shotD\<close> holds two current
  objects. \<^verbatim>\<open>setDress\<close> is at version 9 of 10. The document of \<^verbatim>\<open>shotE\<close> holds
  one object whose \<^verbatim>\<open>mb\<close> attribute carries double quotes; the shot is not in the
  listing and is reached as the default shot.

  The example runtime reads the version texts of these documents as \<^verbatim>\<open>int\<close> does
  (a table of exactly these texts; \<^verbatim>\<open>int('four')\<close> raises) and its engine accepts
  every statement, adds one row and keeps the statement's text as the row.
\<close>

definition charA :: node where
  "charA = Element ''Object'' [(''name'', ''charA'')]
     [Element ''Attrs'' [(''shotVer'', ''3''), (''objName'', ''CharRig''), (''objHighest'', ''5''),
                         (''objVer'', ''4''), (''mb'', ''/assets/charA.mb'')] []]"

definition propZ :: node where
  "propZ = Element ''Object'' [(''name'', ''propZ'')]
     [Element ''Attrs'' [(''shotVer'', ''1''), (''objName'', ''Table''), (''objHighest'', ''2''),
                         (''objVer'', ''2''), (''mb'', ''/assets/propZ.mb'')] []]"

definition propB :: node where
  "propB = Element ''Object'' [(''name'', ''propB'')]
     [Element ''Attrs'' [(''shotVer'', ''2''), (''objName'', ''Chair''), (''objHighest'', ''7''),
                         (''objVer'', ''7''), (''mb'', ''/assets/propB.mb'')] []]"

definition setDress :: node where
  "setDress = Element ''Object'' [(''name'', ''setDress'')]
     [Element ''Attrs'' [(''shotVer'', ''1''), (''objName'', ''Trees''), (''objHighest'', ''10''),
                         (''objVer'', ''9''), (''mb'', ''/assets/setDress.mb'')] []]"

definition copier :: node where
  "copier = Element ''Object'' [(''name'', ''copier'')]
     [Element ''Attrs'' [(''shotVer'', ''1''), (''objName'', ''Rig''), (''objHighest'', ''1''),
                         (''objVer'', ''1''),
                         (''mb'', ''x'' @ [CHR 0x22] @ '') UNION ALL SELECT * FROM entities WHERE ('' @
                                  [CHR 0x22] @ ''1'' @ [CHR 0x22] @ ''='' @ [CHR 0x22] @ ''1'')] []]"

definition childless :: node where
  "childless = Element ''Object'' [(''name'', ''ghost'')] []"

definition badVersion :: node where
  "badVersion = Element ''Object'' [(''name'', ''charB'')]
     [Element ''Attrs'' [(''shotVer'', ''3''), (''objName'', ''CharRig''), (''objHighest'', ''5''),
                         (''objVer'', ''four''), (''mb'', ''/assets/charB.mb'')] []]"

definition demo_world :: world where
  "demo_world =
     \<lparr>listdir = (\<lambda>p. if p = ''.//demo'' then Some [''shotD'', ''shotB'', ''system_test'', ''shotC'']
                     else None),
      parse = (\<lambda>p. if p = ''.//demo/shotA/shotA.xml'' then Inr [Element ''Shot'' [] [charA, childless]]
                   else if p = ''.//demo/shotB/shotB.xml'' then Inr [Element ''Shot'' [] []]
                   else if p = ''.//demo/shotD/shotD.xml'' then Inr [Element ''Shot'' [] [propZ, propB]]
                   else if p = ''.//demo/shotE/shotE.xml'' then Inr [Element ''Shot'' [] [copier]]
                   else Inl ''IOError'')\<rparr>"

definition demo_args :: args where
  "demo_args =
     \<lparr>arg_show = ''demo'', arg_shot = ''shotA'', arg_include = ''ALL'', arg_exclude = ''system'',
      arg_objects = [], arg_verbose = False, arg_db = True\<rparr>"

definition demo_crawler :: crawler where
  "demo_crawler =
     \<lparr>showname = ''demo'', shot = ''shotA'', shotList = [''shotD'', ''shotB'', ''shotC''],
      objects = [], verbose = False, useDB = True\<rparr>"

definition int_table :: "string \<Rightarrow> int option" where
  "int_table = map_of [(''1'', 1), (''2'', 2), (''3'', 3), (''4'', 4), (''5'', 5), (''7'', 7),
                       (''9'', 9), (''10'', 10)]"

definition demo_runtime :: "string runtime" where
  "demo_runtime = \<lparr>to_int = int_table, sql_insert = (\<lambda>rs sql. Some [sql])\<rparr>"

text \<open>
  The statement for the object of \<^verbatim>\<open>shotE\<close> ends, after the pasted \<^verbatim>\<open>mb\<close> text, in
  \<^verbatim>\<open>UNION ALL SELECT * FROM entities WHERE ("1"="1")\<close>. SQLite runs it as a compound
  select: it adds the row of the values and a copy of every row of the table. The
  engine of this runtime does that with such a statement and adds one row for any
  other.
\<close>

definition quoting_args :: args where
  "quoting_args =
     \<lparr>arg_show = ''demo'', arg_shot = ''shotE'', arg_include = [], arg_exclude = ''system'',
      arg_objects = [], arg_verbose = False, arg_db = True\<rparr>"

definition union_runtime :: "string runtime" where
  "union_runtime =
     \<lparr>to_int = int_table,
      sql_insert = (\<lambda>rs sql. if contains ''UNION ALL SELECT * FROM entities'' sql
                              then Some (sql # rs) else Some [sql])\<rparr>"

section \<open>Substrings, dictionaries\<close>

lemma startswith_iff: "startswith s p \<longleftrightarrow> (\<exists>q. s = p @ q)"
  by (induction s p rule: startswith.induct) auto

lemma contains_iff: "contains x s \<longleftrightarrow> (\<exists>p q. s = p @ x @ q)"
proof (induction s)
  case Nil
  then show ?case by auto
next
  case (Cons c cs)
  show ?case
  proof
    assume "contains x (c # cs)"
    then consider "startswith (c # cs) x" | "contains x cs" by auto
    then show "\<exists>p q. c # cs = p @ x @ q"
    proof cases
      case 1
      then obtain q where "c # cs = x @ q" by (auto simp: startswith_iff)
      then have "c # cs = [] @ x @ q" by simp
      then show ?thesis by blast
    next
      case 2
      then obtain p q where "cs = p @ x @ q" using Cons.IH by auto
      then have "c # cs = (c # p) @ x @ q" by simp
      then show ?thesis by blast
    qed
  next
    assume "\<exists>p q. c # cs = p @ x @ q"
    then obtain p q where pq: "c # cs = p @ x @ q" by auto
    show "contains x (c # cs)"
    proof (cases p)
      case Nil
      with pq have "startswith (c # cs) x" by (auto simp: startswith_iff)
      then show ?thesis by simp
    next
      case (Cons a p')
      with pq have "cs = p' @ x @ q" by simp
      then have "contains x cs" using Cons.IH by blast
      then show ?thesis by simp
    qed
  qed
qed

lemma any_in_iff: "any_in pats s \<longleftrightarrow> (\<exists>x \<in> set pats. \<exists>p q. s = p @ x @ q)"
  by (simp add: any_in_def list_ex_iff contains_iff)

lemma get_stamp: "k \<noteq> ''shot'' \<Longrightarrow> get (AList.update ''shot'' v d) k = get d k"
  by (simp add: get_def update_conv')

lemma get_stamp_shot: "get (AList.update ''shot'' v d) ''shot'' = Some v"
  by (simp add: get_def update_conv')

section \<open>Extraction\<close>

lemma getObjInfo_try_Inr:
  "getObjInfo_try toInt obj = Inr d \<Longrightarrow>
     \<exists>tg as attrs rest name shotVer objProd objHighest objVer maya_file h v.
       obj = Element tg as (attrs # rest) \<and>
       getAttribute attrs ''shotVer'' = Inr shotVer \<and>
       getAttribute attrs ''objName'' = Inr objProd \<and>
       getAttribute attrs ''objHighest'' = Inr objHighest \<and>
       getAttribute attrs ''objVer'' = Inr objVer \<and>
       getAttribute attrs ''mb'' = Inr maya_file \<and>
       toInt objHighest = Some h \<and> toInt objVer = Some v \<and>
       d = [(''name'', Str name), (''shotVer'', Str shotVer), (''mb'', Str maya_file),
            (''objName'', Str objProd), (''objVer'', Str objVer),
            (''objHighest'', Str objHighest), (''ood'', Bool (h > v))]"
  unfolding getObjInfo_try_def
  by (auto split: sum.splits node.splits list.splits option.splits)

text \<open>The extractor returns the empty dictionary or a record with all seven fields.\<close>

lemma getObjInfo_cases:
  "snd (getObjInfo toInt obj) = [] \<or>
   (\<exists>name shotVer objProd objHighest objVer maya_file h v.
       toInt objHighest = Some h \<and> toInt objVer = Some v \<and>
       snd (getObjInfo toInt obj) =
           [(''name'', Str name), (''shotVer'', Str shotVer), (''mb'', Str maya_file),
            (''objName'', Str objProd), (''objVer'', Str objVer),
            (''objHighest'', Str objHighest), (''ood'', Bool (h > v))])"
proof (cases "getObjInfo_try toInt obj")
  case (Inl e)
  then show ?thesis by (simp add: getObjInfo_def)
next
  case (Inr d)
  from getObjInfo_try_Inr [OF Inr] Inr show ?thesis
    by (auto simp: getObjInfo_def)
qed

text \<open>The records of a shot are the extractor's results for the \<^verbatim>\<open>Object\<close> elements
  of its document, in document order, each stamped with the shot.\<close>

lemma shotXML_objData:
  assumes "shotXML_objectsGet rt w c s db = (ls, Inr (Some objData), db')"
  shows "\<exists>doc. parse w (xmlFile (showname c) s) = Inr doc \<and>
           objData = map (\<lambda>obj. AList.update ''shot'' (Str s) (snd (getObjInfo (to_int rt) obj)))
                         (getElementsByTagName ''Object'' doc)"
  using assms unfolding shotXML_objectsGet_def
  by (auto simp: Let_def split: sum.splits if_splits prod.splits)

text \<open>
  C1. For every shot whose document parses and every object node whose version
  fields parse as integers, the record's \<^verbatim>\<open>ood\<close> flag is true exactly when the
  highest version is greater than the referenced version as integers; when one of
  the two texts is not an integer the extractor returns no record (the empty
  dictionary), it does not read the text as zero. Every record of a parsed shot
  that carries a flag carries the flag of its two version texts. A text parses
  when \<^verbatim>\<open>int\<close> returns for it, whatever texts those are: the statement holds for
  every \<open>toInt\<close>.
\<close>

theorem ood_iff_highest_gt_version:
  "(getAttribute attrs ''objHighest'' = Inr hs \<and> getAttribute attrs ''objVer'' = Inr vs \<longrightarrow>
      (case (toInt hs, toInt vs) of
         (Some h, Some v) \<Rightarrow>
            get (snd (getObjInfo toInt (Element tg ats (attrs # rest)))) ''ood'' = Some (Bool (h > v))
       | _ \<Rightarrow> snd (getObjInfo toInt (Element tg ats (attrs # rest))) = []))
   \<and> (shotXML_objectsGet rt w c s db = (ls, Inr (Some objData), db') \<and> r \<in> set objData
        \<and> get r ''ood'' = Some b \<longrightarrow>
        (\<exists>hs vs h v. get r ''objHighest'' = Some (Str hs) \<and> get r ''objVer'' = Some (Str vs)
            \<and> to_int rt hs = Some h \<and> to_int rt vs = Some v \<and> b = Bool (h > v)))"
proof (intro conjI impI)
  assume a: "getAttribute attrs ''objHighest'' = Inr hs \<and> getAttribute attrs ''objVer'' = Inr vs"
  then obtain tg' as' cs' where el: "attrs = Element tg' as' cs'"
    by (cases attrs) auto
  with a show "case (toInt hs, toInt vs) of
         (Some h, Some v) \<Rightarrow>
            get (snd (getObjInfo toInt (Element tg ats (attrs # rest)))) ''ood'' = Some (Bool (h > v))
       | _ \<Rightarrow> snd (getObjInfo toInt (Element tg ats (attrs # rest))) = []"
    by (auto simp: getObjInfo_def getObjInfo_try_def get_def split: option.splits)
next
  assume b: "shotXML_objectsGet rt w c s db = (ls, Inr (Some objData), db') \<and> r \<in> set objData
        \<and> get r ''ood'' = Some b"
  with shotXML_objData [of rt w c s db ls objData db']
  obtain obj where r: "r = AList.update ''shot'' (Str s) (snd (getObjInfo (to_int rt) obj))"
    by auto
  with b have "get (snd (getObjInfo (to_int rt) obj)) ''ood'' = Some b"
    by (simp add: get_stamp)
  with getObjInfo_cases [of "to_int rt" obj]
  have "\<exists>hs vs h v. get (snd (getObjInfo (to_int rt) obj)) ''objHighest'' = Some (Str hs)
            \<and> get (snd (getObjInfo (to_int rt) obj)) ''objVer'' = Some (Str vs)
            \<and> to_int rt hs = Some h \<and> to_int rt vs = Some v \<and> b = Bool (h > v)"
    by (auto simp: get_def)
  then show "\<exists>hs vs h v. get r ''objHighest'' = Some (Str hs) \<and> get r ''objVer'' = Some (Str vs)
            \<and> to_int rt hs = Some h \<and> to_int rt vs = Some v \<and> b = Bool (h > v)"
    by (simp add: r get_stamp)
qed

theorem ood_iff_highest_gt_version_witness:
  "get (snd (getObjInfo int_table charA)) ''ood'' = Some (Bool True)
   \<and> get (snd (getObjInfo int_table setDress)) ''ood'' = Some (Bool True)
   \<and> get (snd (getObjInfo int_table propZ)) ''ood'' = Some (Bool False)
   \<and> snd (getObjInfo int_table badVersion) = []"
proof -
  let ?a = "Element ''Attrs'' [(''shotVer'', ''3''), (''objName'', ''CharRig''), (''objHighest'', ''5''),
                         (''objVer'', ''4''), (''mb'', ''/assets/charA.mb'')] []"
  let ?z = "Element ''Attrs'' [(''shotVer'', ''1''), (''objName'', ''Table''), (''objHighest'', ''2''),
                         (''objVer'', ''2''), (''mb'', ''/assets/propZ.mb'')] []"
  let ?b = "Element ''Attrs'' [(''shotVer'', ''3''), (''objName'', ''CharRig''), (''objHighest'', ''5''),
                         (''objVer'', ''four''), (''mb'', ''/assets/charB.mb'')] []"
  let ?t = "Element ''Attrs'' [(''shotVer'', ''1''), (''objName'', ''Trees''), (''objHighest'', ''10''),
                         (''objVer'', ''9''), (''mb'', ''/assets/setDress.mb'')] []"
  have i5: "int_table ''5'' = Some 5" and i4: "int_table ''4'' = Some 4" and i2: "int_table ''2'' = Some 2"
    and i0: "int_table ''four'' = None" and i10: "int_table ''10'' = Some 10" and i9: "int_table ''9'' = Some 9"
    by code_simp+
  have "get (snd (getObjInfo int_table charA)) ''ood'' = Some (Bool True)"
    using ood_iff_highest_gt_version [where toInt = int_table and attrs = ?a and hs = "''5''" and vs = "''4''"
        and tg = "''Object''" and ats = "[(''name'', ''charA'')]" and rest = "[]", THEN conjunct1]
    by (simp add: i5 i4 charA_def)
  moreover have "get (snd (getObjInfo int_table setDress)) ''ood'' = Some (Bool True)"
    using ood_iff_highest_gt_version [where toInt = int_table and attrs = ?t and hs = "''10''" and vs = "''9''"
        and tg = "''Object''" and ats = "[(''name'', ''setDress'')]" and rest = "[]", THEN conjunct1]
    by (simp add: i10 i9 setDress_def)
  moreover have "get (snd (getObjInfo int_table propZ)) ''ood'' = Some (Bool False)"
    using ood_iff_highest_gt_version [where toInt = int_table and attrs = ?z and hs = "''2''" and vs = "''2''"
        and tg = "''Object''" and ats = "[(''name'', ''propZ'')]" and rest = "[]", THEN conjunct1]
    by (simp add: i2 propZ_def)
  moreover have "snd (getObjInfo int_table badVersion) = []"
    using ood_iff_highest_gt_version [where toInt = int_table and attrs = ?b and hs = "''5''" and vs = "''four''"
        and tg = "''Object''" and ats = "[(''name'', ''charB'')]" and rest = "[]", THEN conjunct1]
    by (simp add: i5 i0 badVersion_def)
  ultimately show ?thesis by blast
qed

section \<open>Shot selection\<close>

text \<open>
  The include stage by cases: an empty include text gives the default shot alone; a
  pattern that is \<^verbatim>\<open>all\<close> in any letter case lets every entry pass; and when
  \<^verbatim>\<open>all\<close> occurs nowhere in the lowered text, an entry passes exactly when it
  contains one of the patterns.
\<close>

lemma split_from_token:
  "t \<in> set (split_from cur s) \<Longrightarrow> \<exists>p q. cur @ s = p @ t @ q"
proof (induction s arbitrary: cur)
  case Nil
  then have "cur @ [] = [] @ t @ []" by (auto split: if_splits)
  then show ?case by blast
next
  case (Cons c cs)
  show ?case
  proof (cases "isspace c")
    case False
    with Cons.prems have "t \<in> set (split_from (cur @ [c]) cs)" by simp
    from Cons.IH [OF this] show ?thesis by simp
  next
    case True
    with Cons.prems consider "t = cur" | "t \<in> set (split_from [] cs)"
      by (auto split: if_splits)
    then show ?thesis
    proof cases
      case 1
      then have "cur @ c # cs = [] @ t @ (c # cs)" by simp
      then show ?thesis by blast
    next
      case 2
      from Cons.IH [OF this] obtain p q where "cs = p @ t @ q" by auto
      then have "cur @ c # cs = (cur @ c # p) @ t @ q" by simp
      then show ?thesis by blast
    qed
  qed
qed

lemma sentinel_token_found:
  assumes "t \<in> set (split includeShots)" and "lower t = ''all''"
  shows "contains ''all'' (lower includeShots)"
proof -
  from split_from_token [of t "[]" includeShots] assms(1)
  obtain p q where "includeShots = p @ t @ q" by (auto simp: split_def)
  then have "lower includeShots = lower p @ ''all'' @ lower q"
    using assms(2) by (simp add: lower_def)
  then show ?thesis unfolding contains_iff by blast
qed

lemma any_in_fun: "any_in pats = (\<lambda>s. \<exists>x \<in> set pats. \<exists>p q. s = p @ x @ q)"
  by (rule ext) (simp add: any_in_iff)

lemma include_stage_cases:
  "(includeShots = [] \<longrightarrow> include_stage listing includeShots defaultShot = [defaultShot])
   \<and> ((\<exists>t \<in> set (split includeShots). lower t = ''all'') \<longrightarrow>
         include_stage listing includeShots defaultShot = listing)
   \<and> (includeShots \<noteq> [] \<and> \<not> contains ''all'' (lower includeShots) \<longrightarrow>
         include_stage listing includeShots defaultShot
           = filter (\<lambda>s. \<exists>i \<in> set (split includeShots). \<exists>p q. s = p @ i @ q) listing)"
proof (intro conjI impI)
  assume "\<exists>t \<in> set (split includeShots). lower t = ''all''"
  then obtain t where t: "t \<in> set (split includeShots)" "lower t = ''all''" by blast
  then have "includeShots \<noteq> []" by (auto simp: split_def)
  with sentinel_token_found [OF t] show "include_stage listing includeShots defaultShot = listing"
    by (simp add: include_stage_def)
qed (auto simp: include_stage_def any_in_fun)

text \<open>
  C2. The include stage at the include text \<^verbatim>\<open>hall\<close>, one pattern that is not the
  sentinel: the shot \<^verbatim>\<open>shotA\<close> does not contain the pattern and passes all the
  same, because \<^verbatim>\<open>'all' in 'hall'\<close> holds and the method then filters nothing.
\<close>

theorem include_all_inside_pattern:
  "split ''hall'' = [''hall'']
   \<and> \<not> list_ex (\<lambda>i. lower i = ''all'') (split ''hall'')
   \<and> \<not> any_in (split ''hall'') ''shotA''
   \<and> include_stage [''shotA'', ''hallway''] ''hall'' ''shot001'' = [''shotA'', ''hallway'']
   \<and> getShotList (Some [''shotA'', ''hallway'']) ''hall'' ''system'' ''shot001''
         = [''shotA'', ''hallway'']"
  by code_simp

text \<open>
  C8. When the exclude text is given and is not \<^verbatim>\<open>none\<close> in any letter case, the
  shot list is the result of the include stage without every entry that contains
  one of the exclude patterns as a substring; the exclusion comes after the
  include stage whatever that stage did, also when the include text is empty and
  the stage gave the default shot alone.
\<close>

theorem exclude_after_include:
  assumes "excludeShots \<noteq> []" and "lower excludeShots \<noteq> ''none''"
  shows "getShotList listing includeShots excludeShots defaultShot =
           filter (\<lambda>s. \<not> any_in (split excludeShots) s)
             (include_stage (listdir_or_empty listing) includeShots defaultShot)
         \<and> (\<forall>s. any_in (split excludeShots) s \<longleftrightarrow>
                  (\<exists>x \<in> set (split excludeShots). \<exists>p q. s = p @ x @ q))
         \<and> (includeShots = [] \<longrightarrow>
               getShotList listing includeShots excludeShots defaultShot =
                 (if any_in (split excludeShots) defaultShot then [] else [defaultShot]))"
  using assms by (auto simp: getShotList_def exclude_stage_def include_stage_def any_in_iff)

theorem exclude_after_include_witness:
  "''system'' \<noteq> [] \<and> lower ''system'' \<noteq> ''none'' \<and>
   getShotList (Some [''shotA'', ''shotB'', ''system_test'']) ''ALL'' ''system'' ''shot001''
     = [''shotA'', ''shotB'']"
proof -
  have h1: "''system'' \<noteq> []" by simp
  have h2: "lower ''system'' \<noteq> ''none''" by code_simp
  have e: "filter (\<lambda>s. \<not> any_in (split ''system'') s)
             (include_stage (listdir_or_empty (Some [''shotA'', ''shotB'', ''system_test'']))
                ''ALL'' ''shot001'')
           = [''shotA'', ''shotB'']" by code_simp
  from exclude_after_include [OF h1 h2, of "Some [''shotA'', ''shotB'', ''system_test'']"
      "''ALL''" "''shot001''"]
  have "getShotList (Some [''shotA'', ''shotB'', ''system_test'']) ''ALL'' ''system'' ''shot001''
     = [''shotA'', ''shotB'']" using e by simp
  with h1 h2 show ?thesis by blast
qed

section \<open>Object filter\<close>

lemma any_obj_in_Str: "any_obj_in objs (Some (Str s)) = Inr (\<exists>f \<in> set objs. contains f s)"
  by (induction objs) auto

lemma keeps_Str:
  assumes "get ob ''objName'' = Some (Str on)" and "get ob ''name'' = Some (Str n)"
  shows "keeps objs ob = Inr (\<exists>f \<in> set objs. contains f on \<or> contains f n)"
  using assms by (auto simp: keeps_def any_obj_in_Str)

lemma filter_objects_named:
  assumes "\<forall>ob \<in> set obs. \<exists>on n. get ob ''objName'' = Some (Str on) \<and> get ob ''name'' = Some (Str n)"
  shows "filter_objects objs obs =
           Inr (filter (\<lambda>ob. \<exists>f \<in> set objs. \<exists>on n.
                    get ob ''objName'' = Some (Str on) \<and> get ob ''name'' = Some (Str n) \<and>
                    (contains f on \<or> contains f n)) obs)"
  using assms
proof (induction obs)
  case Nil
  then show ?case by simp
next
  case (Cons ob obs)
  then obtain on n where f: "get ob ''objName'' = Some (Str on)" "get ob ''name'' = Some (Str n)"
    by auto
  from Cons have ih: "filter_objects objs obs =
           Inr (filter (\<lambda>ob. \<exists>f \<in> set objs. \<exists>on n.
                    get ob ''objName'' = Some (Str on) \<and> get ob ''name'' = Some (Str n) \<and>
                    (contains f on \<or> contains f n)) obs)" by simp
  show ?case by (simp add: keeps_Str [OF f] ih f)
qed

text \<open>Every record the extractor builds has both names, also after the stamp.\<close>

lemma extracted_record_named:
  assumes "getObjInfo_try toInt obj = Inr d"
  shows "\<exists>on n. get (AList.update ''shot'' (Str s) d) ''objName'' = Some (Str on) \<and>
                get (AList.update ''shot'' (Str s) d) ''name'' = Some (Str n)"
  using getObjInfo_try_Inr [OF assms] by (auto simp: get_def update_conv')

text \<open>
  C7. For a list of records that all have a published name and an instance name,
  and a list of filter strings that is not empty, the filter keeps exactly the
  records in which some filter string is a substring of the published name or a
  substring of the instance name, in their order; the empty filter list keeps
  every record.
\<close>

theorem object_filter_retains_iff:
  "cull [] obs = Inr obs
   \<and> ((\<forall>ob \<in> set obs. \<exists>on n. get ob ''objName'' = Some (Str on) \<and> get ob ''name'' = Some (Str n))
        \<and> objs \<noteq> [] \<longrightarrow>
       cull objs obs =
         Inr (filter (\<lambda>ob. \<exists>f \<in> set objs. \<exists>on n.
                 get ob ''objName'' = Some (Str on) \<and> get ob ''name'' = Some (Str n) \<and>
                 ((\<exists>p q. on = p @ f @ q) \<or> (\<exists>p q. n = p @ f @ q))) obs))"
  using filter_objects_named [of obs objs]
  by (simp add: cull_def contains_iff)

theorem object_filter_retains_iff_witness:
  "cull [''Chair'', ''pZ''] [[(''name'', Str ''propZ''), (''objName'', Str ''Table'')],
                   [(''name'', Str ''propB''), (''objName'', Str ''Chair'')],
                   [(''name'', Str ''lamp''), (''objName'', Str ''Light'')]]
     = Inr [[(''name'', Str ''propZ''), (''objName'', Str ''Table'')],
            [(''name'', Str ''propB''), (''objName'', Str ''Chair'')]]"
proof -
  let ?obs = "[[(''name'', Str ''propZ''), (''objName'', Str ''Table'')],
               [(''name'', Str ''propB''), (''objName'', Str ''Chair'')],
               [(''name'', Str ''lamp''), (''objName'', Str ''Light'')]]"
  have h: "(\<forall>ob \<in> set ?obs. \<exists>on n. get ob ''objName'' = Some (Str on) \<and> get ob ''name'' = Some (Str n))
             \<and> [''Chair'', ''pZ''] \<noteq> []"
    by (simp add: get_def)
  from object_filter_retains_iff [where obs = ?obs and objs = "[''Chair'', ''pZ'']", THEN conjunct2, rule_format, OF h]
  show ?thesis
    by (simp add: get_def contains_iff [symmetric])
qed

section \<open>What the store receives\<close>

lemma getObjInfo_no_objProd: "get (snd (getObjInfo toInt obj)) ''objProd'' = None"
  using getObjInfo_cases [of toInt obj] by (auto simp: get_def)

lemma getObjInfo_objName:
  assumes "getObjInfo_try toInt (Element tg ats (attrs # rest)) = Inr d"
  shows "\<exists>on. getAttribute attrs ''objName'' = Inr on \<and>
              get (snd (getObjInfo toInt (Element tg ats (attrs # rest)))) ''objName'' = Some (Str on)"
  using getObjInfo_try_Inr [OF assms] assms by (auto simp: getObjInfo_def get_def)

text \<open>
  C10. Every record of a shot that goes to \<^verbatim>\<open>insert\<close> has no field \<^verbatim>\<open>objProd\<close>,
  so the third value of its statement, the one for the column \<^verbatim>\<open>objProd\<close>, is the
  text of \<^verbatim>\<open>None\<close>; the published name of an extracted record is under the key
  \<^verbatim>\<open>objName\<close>, which \<^verbatim>\<open>insert\<close> does not read.
\<close>

theorem objProd_column_is_None:
  "(shotXML_objectsGet rt w c s db = (ls, Inr (Some objData), db') \<and> char \<in> set objData \<longrightarrow>
      get char ''objProd'' = None \<and>
      insert_values char =
        [s, py_str (get char ''name''), ''None'', py_str (get char ''shotVer''),
         py_str (get char ''objVer''), py_str (get char ''objHighest''),
         py_str (get char ''ood''), py_str (get char ''mb'')])
   \<and> (getObjInfo_try toInt (Element tg ats (attrs # rest)) = Inr d \<longrightarrow>
        (\<exists>on. getAttribute attrs ''objName'' = Inr on \<and>
           get (AList.update ''shot'' (Str s') (snd (getObjInfo toInt (Element tg ats (attrs # rest)))))
               ''objName'' = Some (Str on) \<and>
           get (AList.update ''shot'' (Str s') (snd (getObjInfo toInt (Element tg ats (attrs # rest)))))
               ''objProd'' = None))"
proof (intro conjI impI)
  assume a: "shotXML_objectsGet rt w c s db = (ls, Inr (Some objData), db') \<and> char \<in> set objData"
  with shotXML_objData [of rt w c s db ls objData db']
  obtain obj where ch: "char = AList.update ''shot'' (Str s) (snd (getObjInfo (to_int rt) obj))"
    by auto
  then show "get char ''objProd'' = None"
    by (simp add: get_stamp getObjInfo_no_objProd)
  with ch show "insert_values char =
        [s, py_str (get char ''name''), ''None'', py_str (get char ''shotVer''),
         py_str (get char ''objVer''), py_str (get char ''objHighest''),
         py_str (get char ''ood''), py_str (get char ''mb'')]"
    by (simp add: insert_values_def get_stamp_shot)
next
  assume "getObjInfo_try toInt (Element tg ats (attrs # rest)) = Inr d"
  from getObjInfo_objName [OF this]
  show "\<exists>on. getAttribute attrs ''objName'' = Inr on \<and>
           get (AList.update ''shot'' (Str s') (snd (getObjInfo toInt (Element tg ats (attrs # rest)))))
               ''objName'' = Some (Str on) \<and>
           get (AList.update ''shot'' (Str s') (snd (getObjInfo toInt (Element tg ats (attrs # rest)))))
               ''objProd'' = None"
    by (auto simp: get_stamp getObjInfo_no_objProd)
qed

lemma ex_shotA:
  "shotXML_objectsGet demo_runtime demo_world demo_crawler ''shotA''
        (Present (Some \<lparr>schema = create_sql, rows = []\<rparr>))
     = ([Log INFO ''Checking xml: .//demo/shotA/shotA.xml'', Log INFO ''not valid.'',
         Sql (insert_sql [(''name'', Str ''charA''), (''shotVer'', Str ''3''),
             (''mb'', Str ''/assets/charA.mb''), (''objName'', Str ''CharRig''),
             (''objVer'', Str ''4''), (''objHighest'', Str ''5''), (''ood'', Bool True),
             (''shot'', Str ''shotA'')]),
         Sql (insert_sql [(''shot'', Str ''shotA'')])],
        Inr (Some [[(''name'', Str ''charA''), (''shotVer'', Str ''3''),
             (''mb'', Str ''/assets/charA.mb''), (''objName'', Str ''CharRig''),
             (''objVer'', Str ''4''), (''objHighest'', Str ''5''), (''ood'', Bool True),
             (''shot'', Str ''shotA'')], [(''shot'', Str ''shotA'')]]),
        Present (Some \<lparr>schema = create_sql, rows =
           [insert_sql [(''name'', Str ''charA''), (''shotVer'', Str ''3''),
             (''mb'', Str ''/assets/charA.mb''), (''objName'', Str ''CharRig''),
             (''objVer'', Str ''4''), (''objHighest'', Str ''5''), (''ood'', Bool True),
             (''shot'', Str ''shotA'')], insert_sql [(''shot'', Str ''shotA'')]]\<rparr>))"
  by code_simp

theorem objProd_column_is_None_witness:
  "get [(''name'', Str ''charA''), (''shotVer'', Str ''3''),
        (''mb'', Str ''/assets/charA.mb''), (''objName'', Str ''CharRig''),
        (''objVer'', Str ''4''), (''objHighest'', Str ''5''), (''ood'', Bool True),
        (''shot'', Str ''shotA'')] ''objName'' = Some (Str ''CharRig'')
   \<and> insert_values [(''name'', Str ''charA''), (''shotVer'', Str ''3''),
        (''mb'', Str ''/assets/charA.mb''), (''objName'', Str ''CharRig''),
        (''objVer'', Str ''4''), (''objHighest'', Str ''5''), (''ood'', Bool True),
        (''shot'', Str ''shotA'')]
      = [''shotA'', ''charA'', ''None'', ''3'', ''4'', ''5'', ''True'', ''/assets/charA.mb'']"
proof -
  let ?r = "[(''name'', Str ''charA''), (''shotVer'', Str ''3''),
        (''mb'', Str ''/assets/charA.mb''), (''objName'', Str ''CharRig''),
        (''objVer'', Str ''4''), (''objHighest'', Str ''5''), (''ood'', Bool True),
        (''shot'', Str ''shotA'')]"
  have m: "?r \<in> set [?r, [(''shot'', Str ''shotA'')]]" by simp
  have n: "get ?r ''objName'' = Some (Str ''CharRig'')" by (simp add: get_def)
  from objProd_column_is_None [THEN conjunct1, rule_format, OF conjI, OF ex_shotA m]
  have "insert_values ?r =
        [''shotA'', py_str (get ?r ''name''), ''None'', py_str (get ?r ''shotVer''),
         py_str (get ?r ''objVer''), py_str (get ?r ''objHighest''),
         py_str (get ?r ''ood''), py_str (get ?r ''mb'')]" by blast
  then have "insert_values ?r
      = [''shotA'', ''charA'', ''None'', ''3'', ''4'', ''5'', ''True'', ''/assets/charA.mb'']"
    by (simp add: get_def)
  with n show ?thesis by blast
qed

section \<open>Order of the report\<close>

lemma items_append: "items (xs @ ys) = items xs @ items ys"
  by (induction xs rule: items.induct) auto

lemma shot_names_append: "shot_names (xs @ ys) = shot_names xs @ shot_names ys"
  by (induction xs rule: shot_names.induct) auto

lemma items_map_Item: "items (map Item xs) = xs"
  by (induction xs) auto

lemma shot_names_map_Item: "shot_names (map Item xs) = []"
  by (induction xs) auto

lemma insert_all_lines:
  "insert_all engine db pending obs = (ls, r) \<Longrightarrow> items ls = [] \<and> shot_names ls = []"
  by (induction obs arbitrary: pending ls r) (auto split: sum.splits prod.splits)

lemma getObjInfo_lines: "items (fst (getObjInfo toInt obj)) = [] \<and> shot_names (fst (getObjInfo toInt obj)) = []"
  by (simp add: getObjInfo_def split: sum.splits)

lemma getObjInfo_lines_concat:
  "items (concat (map (fst \<circ> getObjInfo toInt) xs)) = [] \<and>
   shot_names (concat (map (fst \<circ> getObjInfo toInt) xs)) = []"
  by (induction xs) (auto simp: items_append shot_names_append getObjInfo_lines)

lemma shotXML_lines:
  assumes "shotXML_objectsGet rt w c s db = (ls, r, db')"
  shows "items ls = [] \<and> shot_names ls = []"
proof (cases "parse w (xmlFile (showname c) s)")
  case (Inl e)
  with assms show ?thesis by (auto simp: shotXML_objectsGet_def)
next
  case (Inr doc)
  show ?thesis
  proof (cases "useDB c")
    case False
    with assms Inr show ?thesis
      by (auto simp: shotXML_objectsGet_def Let_def getObjInfo_lines_concat)
  next
    case True
    with assms Inr show ?thesis
      by (auto simp: shotXML_objectsGet_def Let_def getObjInfo_lines_concat items_append
            shot_names_append split: sum.splits prod.splits dest: insert_all_lines)
  qed
qed

lemma shotObjects_lines:
  assumes "shotObjects rt w c s db = (ls, r, db')"
  shows "items ls = [] \<and> shot_names ls = []"
proof -
  obtain ls0 r0 db0 where x: "shotXML_objectsGet rt w c s db = (ls0, r0, db0)"
    by (cases "shotXML_objectsGet rt w c s db") auto
  from shotXML_lines [OF x] assms x show ?thesis
    by (auto simp: shotObjects_def split: sum.splits option.splits)
qed

lemma shotObjects_stamped:
  assumes "shotObjects rt w c s db = (ls, Inr obs, db')" and "ob \<in> set obs"
  shows "get ob ''shot'' = Some (Str s)"
proof -
  obtain ls0 r0 db0 where x: "shotXML_objectsGet rt w c s db = (ls0, r0, db0)"
    by (cases "shotXML_objectsGet rt w c s db") auto
  with assms have "r0 = Inr (Some obs)"
    by (auto simp: shotObjects_def split: sum.splits option.splits)
  with x shotXML_objData [of rt w c s db ls0 obs db0] assms(2)
  show ?thesis by (auto simp: get_stamp_shot)
qed

lemma filter_objects_subset: "filter_objects objs obs = Inr kept \<Longrightarrow> set kept \<subseteq> set obs"
  by (induction obs arbitrary: kept) (auto split: sum.splits if_splits)

lemma cull_subset: "cull objs obs = Inr kept \<Longrightarrow> set kept \<subseteq> set obs"
  by (auto simp: cull_def dest: filter_objects_subset split: if_splits)

lemma shot_section_report:
  assumes "shot_section rt w c s db = (ls, r, db')"
  shows "shot_names ls = (if verbose c then [] else [s])"
    and "sorted (map name_key (items ls))"
    and "\<forall>it \<in> set (items ls). get it ''shot'' = Some (Str s)"
proof -
  obtain ls0 r0 db0 where so: "shotObjects rt w c s db = (ls0, r0, db0)"
    by (cases "shotObjects rt w c s db") auto
  from shotObjects_lines [OF so] have l0: "items ls0 = []" "shot_names ls0 = []" by auto
  show "shot_names ls = (if verbose c then [] else [s])"
    using assms so l0
    by (auto simp: shot_section_def Let_def shot_names_append shot_names_map_Item
          split: sum.splits list.splits)
  show "sorted (map name_key (items ls))"
    using assms so l0
    by (auto simp: shot_section_def Let_def items_append items_map_Item
          simp del: sort_key_simps split: sum.splits list.splits)
  show "\<forall>it \<in> set (items ls). get it ''shot'' = Some (Str s)"
  proof (cases r0)
    case (Inl e)
    with assms so l0 show ?thesis
      by (auto simp: shot_section_def Let_def items_append split: if_splits)
  next
    case (Inr obs)
    show ?thesis
    proof (cases "cull (objects c) obs")
      case (Inl e)
      with assms so l0 Inr show ?thesis
        by (auto simp: shot_section_def Let_def items_append split: if_splits)
    next
      case kept: (Inr kept)
      from cull_subset [OF kept] shotObjects_stamped [OF so [unfolded Inr]]
      have st: "\<forall>it \<in> set kept. get it ''shot'' = Some (Str s)" by blast
      have "set (items ls) \<subseteq> set kept"
        using assms so l0 Inr kept
        by (auto simp: shot_section_def Let_def items_append items_map_Item
              simp del: sort_key_simps split: list.splits if_splits)
      with st show ?thesis by blast
    qed
  qed
qed

lemma sorted_constant: "\<forall>x \<in> set xs. f x = a \<Longrightarrow> sorted (map f xs)"
  by (induction xs) auto

lemma shots_loop_report:
  "shots_loop rt w c shots db = (ls, r, db') \<Longrightarrow>
     (\<exists>k. shot_names ls = (if verbose c then [] else take k shots))
   \<and> (r = None \<longrightarrow> shot_names ls = (if verbose c then [] else shots))
   \<and> (\<forall>it \<in> set (items ls). \<exists>s \<in> set shots. get it ''shot'' = Some (Str s))
   \<and> (sorted shots \<longrightarrow> sorted (map (\<lambda>it. py_str (get it ''shot'')) (items ls)))"
proof (induction shots arbitrary: db ls r db')
  case Nil
  then show ?case by auto
next
  case (Cons s rest)
  obtain l1 r1 d1 where sec: "shot_section rt w c s db = (l1, r1, d1)"
    by (cases "shot_section rt w c s db") auto
  note rep = shot_section_report [OF sec]
  have const: "sorted (map (\<lambda>it. py_str (get it ''shot'')) (items l1))"
    using rep(3) by (intro sorted_constant [where a = s]) auto
  show ?case
  proof (cases r1)
    case (Some e)
    with Cons.prems sec have eq: "ls = l1" "r = Some e" by auto
    have "shot_names ls = (if verbose c then [] else take 1 (s # rest))"
      using rep(1) eq by simp
    then have "\<exists>k. shot_names ls = (if verbose c then [] else take k (s # rest))" by blast
    with eq rep const show ?thesis by auto
  next
    case None
    obtain l2 r2 d2 where lp: "shots_loop rt w c rest d1 = (l2, r2, d2)"
      by (cases "shots_loop rt w c rest d1") auto
    from Cons.IH [OF lp] obtain k where
      k: "shot_names l2 = (if verbose c then [] else take k rest)"
      and fin: "r2 = None \<longrightarrow> shot_names l2 = (if verbose c then [] else rest)"
      and st: "\<forall>it \<in> set (items l2). \<exists>s \<in> set rest. get it ''shot'' = Some (Str s)"
      and so: "sorted rest \<longrightarrow> sorted (map (\<lambda>it. py_str (get it ''shot'')) (items l2))"
      by blast
    from Cons.prems sec None lp have eq: "ls = l1 @ l2" "r = r2" by auto
    have "shot_names ls = (if verbose c then [] else take (Suc k) (s # rest))"
      using rep(1) eq k by (simp add: shot_names_append)
    then have a: "\<exists>k. shot_names ls = (if verbose c then [] else take k (s # rest))" by blast
    have b: "r = None \<longrightarrow> shot_names ls = (if verbose c then [] else s # rest)"
      using rep(1) eq fin by (simp add: shot_names_append)
    have c: "\<forall>it \<in> set (items ls). \<exists>s' \<in> set (s # rest). get it ''shot'' = Some (Str s')"
      using rep(3) st eq by (auto simp: items_append)
    have d: "sorted (s # rest) \<longrightarrow> sorted (map (\<lambda>it. py_str (get it ''shot'')) (items ls))"
    proof
      assume srt: "sorted (s # rest)"
      then have "sorted (map (\<lambda>it. py_str (get it ''shot'')) (items l2))" using so by simp
      moreover have "\<forall>x \<in> set (items l1). \<forall>y \<in> set (items l2).
                        py_str (get x ''shot'') \<le> py_str (get y ''shot'')"
      proof (intro ballI)
        fix x y assume "x \<in> set (items l1)" "y \<in> set (items l2)"
        with rep(3) st obtain s' where "get x ''shot'' = Some (Str s)" "s' \<in> set rest"
          "get y ''shot'' = Some (Str s')" by blast
        with srt show "py_str (get x ''shot'') \<le> py_str (get y ''shot'')" by auto
      qed
      ultimately show "sorted (map (\<lambda>it. py_str (get it ''shot'')) (items ls))"
        using const eq by (simp add: items_append sorted_append)
    qed
    from a b c d show ?thesis by blast
  qed
qed

text \<open>
  C9. The shots are visited in ascending order of their names: the shot-name lines
  of a report are an initial part of the sorted shot list (all of it when the run
  ends without an exception; no such line is printed when verbose), and the shot
  stamps of the record lines ascend. Within one shot the record lines are sorted
  by the value of \<^verbatim>\<open>name\<close>, ascending, and all carry that shot's stamp. The
  extraction results reach the sort in document order, \<^verbatim>\<open>pool.map\<close> keeping the
  order of its inputs.
\<close>

theorem report_order:
  "(findShotsWithObjects rt w c db = (ls, r, db') \<longrightarrow>
      sorted (shot_names ls)
      \<and> (\<not> verbose c \<longrightarrow> (\<exists>k. shot_names ls = take k (sort (shotList c))))
      \<and> (\<not> verbose c \<and> r = None \<longrightarrow> shot_names ls = sort (shotList c))
      \<and> sorted (map (\<lambda>it. py_str (get it ''shot'')) (items ls)))
   \<and> (shot_section rt w c s db1 = (ls1, r1, db1') \<longrightarrow>
        sorted (map name_key (items ls1))
        \<and> (\<forall>it \<in> set (items ls1). get it ''shot'' = Some (Str s)))"
proof (intro conjI impI)
  assume "shot_section rt w c s db1 = (ls1, r1, db1')"
  from shot_section_report [OF this]
  show "sorted (map name_key (items ls1))"
    and "\<forall>it \<in> set (items ls1). get it ''shot'' = Some (Str s)" by auto
next
  assume f: "findShotsWithObjects rt w c db = (ls, r, db')"
  obtain l2 where lp: "shots_loop rt w c (sort (shotList c))
                          (if useDB c then dbConnect db else db) = (l2, r, db')"
    and ls: "ls = Planning (length (shotList c)) #
                  (if useDB c then [Log DEBUG ''Using database''] else []) @ l2"
    using f by (auto simp: findShotsWithObjects_def Let_def split: prod.splits)
  have sn: "shot_names ls = shot_names l2" using ls by (simp add: shot_names_append)
  have it: "items ls = items l2" using ls by (simp add: items_append)
  note rep = shots_loop_report [OF lp]
  from rep obtain k where k: "shot_names l2 = (if verbose c then [] else take k (sort (shotList c)))"
    by blast
  show "sorted (shot_names ls)"
    using k sn by (auto intro: sorted_wrt_take)
  show "\<exists>k. shot_names ls = take k (sort (shotList c))" if "\<not> verbose c"
    using k sn that by auto
  show "shot_names ls = sort (shotList c)" if "\<not> verbose c \<and> r = None"
    using rep sn that by auto
  show "sorted (map (\<lambda>it. py_str (get it ''shot'')) (items ls))"
    using rep it by simp
qed


theorem report_order_witness:
  "shot_names (fst (findShotsWithObjects demo_runtime demo_world demo_crawler Absent))
     = [''shotB'', ''shotC'', ''shotD'']
   \<and> map name_key (items (fst (shot_section demo_runtime demo_world demo_crawler ''shotD''
          (Present (Some \<lparr>schema = create_sql, rows = []\<rparr>)))))
     = [Some ''propB'', Some ''propZ'']
   \<and> sorted [Some ''propB'', Some ''propZ'']"
proof -
  let ?db = "Present (Some \<lparr>schema = create_sql, rows = []\<rparr>) :: string dbfile"
  obtain ls r db' where f: "findShotsWithObjects demo_runtime demo_world demo_crawler Absent = (ls, r, db')"
    by (cases "findShotsWithObjects demo_runtime demo_world demo_crawler Absent") auto
  have "fst (snd (findShotsWithObjects demo_runtime demo_world demo_crawler Absent)) = None"
    by code_simp
  with f have r: "r = None" by simp
  have v: "\<not> verbose demo_crawler" by (simp add: demo_crawler_def)
  have s: "sort (shotList demo_crawler) = [''shotB'', ''shotC'', ''shotD'']" by code_simp
  obtain ls1 r1 db1 where g: "shot_section demo_runtime demo_world demo_crawler ''shotD'' ?db = (ls1, r1, db1)"
    by (cases "shot_section demo_runtime demo_world demo_crawler ''shotD'' ?db") auto
  have m: "map name_key (items (fst (shot_section demo_runtime demo_world demo_crawler ''shotD'' ?db)))
             = [Some ''propB'', Some ''propZ'']"
    by code_simp
  from report_order [where rt = demo_runtime and w = demo_world and c = demo_crawler
      and db = Absent and ls = ls and r = r and db' = db' and s = "''shotD''" and ?db1.0 = ?db
      and ?ls1.0 = ls1 and ?r1.0 = r1 and ?db1' = db1] f g r v
  have "shot_names ls = sort (shotList demo_crawler)" and "sorted (map name_key (items ls1))"
    by simp_all
  with f g s m show ?thesis by simp
qed

section \<open>Runs on the same store\<close>

text \<open>The table is created, with the fixed statement, only when the file is absent;
  a file that exists is used as it is.\<close>

lemma dbConnect_creates_once:
  "dbConnect Absent = Present (Some \<lparr>schema = create_sql, rows = []\<rparr>)
   \<and> dbConnect (Present existing) = Present existing"
  by (simp add: dbConnect_def)

text \<open>
  When no statement of a run reads the table, that is when the engine adds the
  same rows whatever rows it finds, a run appends rows that do not depend on the
  store, and a second run appends them again.
\<close>

lemma insert_all_indep:
  assumes "\<And>rs sql. engine rs sql = engine [] sql"
  shows "\<exists>ls r. \<forall>t p. insert_all engine (Present (Some t)) p obs
            = (ls, case r of Inl e \<Rightarrow> Inl e | Inr X \<Rightarrow> Inr (p @ X))"
proof (induction obs)
  case Nil
  have "\<forall>t p. insert_all engine (Present (Some t)) p []
            = ([], case Inr [] of Inl e \<Rightarrow> Inl e | Inr X \<Rightarrow> Inr (p @ X))" by simp
  then show ?case by blast
next
  case (Cons char rest)
  from Cons.IH obtain ls r where ih: "\<And>t p. insert_all engine (Present (Some t)) p rest
            = (ls, case r of Inl e \<Rightarrow> Inl e | Inr X \<Rightarrow> Inr (p @ X))" by blast
  have ex: "\<And>t p. execute engine (Present (Some t)) p (insert_sql char)
              = (case engine [] (insert_sql char) of
                   None \<Rightarrow> Inl OperationalError | Some rs \<Rightarrow> Inr rs)"
    by (simp add: execute_def assms [of "rows _ @ _" "insert_sql char"])
  show ?case
  proof (cases "engine [] (insert_sql char)")
    case None
    with ex have "\<forall>t p. insert_all engine (Present (Some t)) p (char # rest)
            = ([Sql (insert_sql char)],
               case Inl OperationalError of Inl e \<Rightarrow> Inl e | Inr X \<Rightarrow> Inr (p @ X))"
      by simp
    then show ?thesis by blast
  next
    case (Some rs)
    with ex ih have "\<forall>t p. insert_all engine (Present (Some t)) p (char # rest)
            = (Sql (insert_sql char) # ls,
               case (case r of Inl e \<Rightarrow> Inl e | Inr X \<Rightarrow> Inr (rs @ X)) of
                 Inl e \<Rightarrow> Inl e | Inr X \<Rightarrow> Inr (p @ X))"
      by (simp split: sum.splits)
    then show ?thesis by blast
  qed
qed

lemma shotXML_store:
  assumes ign: "\<And>rs sql. sql_insert rt rs sql = sql_insert rt [] sql"
    and "shotXML_objectsGet rt w c s (Present (Some t)) = (ls, r, db')"
  shows "\<exists>X. db' = Present (Some (t\<lparr>rows := rows t @ X\<rparr>)) \<and>
           (\<forall>t'. shotXML_objectsGet rt w c s (Present (Some t'))
                   = (ls, r, Present (Some (t'\<lparr>rows := rows t' @ X\<rparr>))))"
proof (cases "parse w (xmlFile (showname c) s)")
  case (Inl e)
  with assms(2) have "db' = Present (Some (t\<lparr>rows := rows t @ []\<rparr>)) \<and>
           (\<forall>t'. shotXML_objectsGet rt w c s (Present (Some t'))
                   = (ls, r, Present (Some (t'\<lparr>rows := rows t' @ []\<rparr>))))"
    by (auto simp: shotXML_objectsGet_def)
  then show ?thesis by blast
next
  case (Inr doc)
  let ?objData = "map (AList.update ''shot'' (Str s))
                    (map snd (map (getObjInfo (to_int rt)) (getElementsByTagName ''Object'' doc)))"
  let ?logs = "Log INFO (''Checking xml: '' @ xmlFile (showname c) s) #
                 concat (map fst (map (getObjInfo (to_int rt)) (getElementsByTagName ''Object'' doc)))"
  show ?thesis
  proof (cases "useDB c")
    case False
    with assms(2) Inr have "db' = Present (Some (t\<lparr>rows := rows t @ []\<rparr>)) \<and>
           (\<forall>t'. shotXML_objectsGet rt w c s (Present (Some t'))
                   = (ls, r, Present (Some (t'\<lparr>rows := rows t' @ []\<rparr>))))"
      by (auto simp: shotXML_objectsGet_def Let_def)
    then show ?thesis by blast
  next
    case True
    from insert_all_indep [of "sql_insert rt" ?objData] ign
    obtain l2 r2 where ia: "\<And>t' p. insert_all (sql_insert rt) (Present (Some t')) p ?objData
            = (l2, case r2 of Inl e \<Rightarrow> Inl e | Inr X \<Rightarrow> Inr (p @ X))" by blast
    have unf: "\<And>t'. shotXML_objectsGet rt w c s (Present (Some t')) =
            (case r2 of Inl e \<Rightarrow> (?logs @ l2, Inl e, Present (Some t'))
             | Inr X \<Rightarrow> (?logs @ l2, Inr (Some ?objData), commit (Present (Some t')) X))"
      using Inr True ia [of _ "[]"]
      by (simp add: shotXML_objectsGet_def Let_def del: map_map split: sum.splits)
    show ?thesis
    proof (cases r2)
      case (Inl e)
      with assms(2) unf have "db' = Present (Some (t\<lparr>rows := rows t @ []\<rparr>)) \<and>
           (\<forall>t'. shotXML_objectsGet rt w c s (Present (Some t'))
                   = (ls, r, Present (Some (t'\<lparr>rows := rows t' @ []\<rparr>))))"
        by simp
      then show ?thesis by blast
    next
      case (Inr X)
      with assms(2) unf have "db' = Present (Some (t\<lparr>rows := rows t @ X\<rparr>)) \<and>
           (\<forall>t'. shotXML_objectsGet rt w c s (Present (Some t'))
                   = (ls, r, Present (Some (t'\<lparr>rows := rows t' @ X\<rparr>))))"
        by (simp add: commit_def)
      then show ?thesis by blast
    qed
  qed
qed

lemma shotObjects_store:
  assumes ign: "\<And>rs sql. sql_insert rt rs sql = sql_insert rt [] sql"
    and "shotObjects rt w c s (Present (Some t)) = (ls, r, db')"
  shows "\<exists>X. db' = Present (Some (t\<lparr>rows := rows t @ X\<rparr>)) \<and>
           (\<forall>t'. shotObjects rt w c s (Present (Some t'))
                   = (ls, r, Present (Some (t'\<lparr>rows := rows t' @ X\<rparr>))))"
proof -
  obtain l0 r0 d0 where x: "shotXML_objectsGet rt w c s (Present (Some t)) = (l0, r0, d0)"
    by (cases "shotXML_objectsGet rt w c s (Present (Some t))") auto
  from shotXML_store [OF ign x] obtain X where
    X: "d0 = Present (Some (t\<lparr>rows := rows t @ X\<rparr>))"
       "\<And>t'. shotXML_objectsGet rt w c s (Present (Some t'))
                   = (l0, r0, Present (Some (t'\<lparr>rows := rows t' @ X\<rparr>)))" by blast
  have "db' = Present (Some (t\<lparr>rows := rows t @ X\<rparr>)) \<and>
           (\<forall>t'. shotObjects rt w c s (Present (Some t'))
                   = (ls, r, Present (Some (t'\<lparr>rows := rows t' @ X\<rparr>))))"
    using assms(2) x X by (auto simp: shotObjects_def split: sum.splits option.splits)
  then show ?thesis by blast
qed

lemma shot_section_store:
  assumes ign: "\<And>rs sql. sql_insert rt rs sql = sql_insert rt [] sql"
    and "shot_section rt w c s (Present (Some t)) = (ls, r, db')"
  shows "\<exists>X. db' = Present (Some (t\<lparr>rows := rows t @ X\<rparr>)) \<and>
           (\<forall>t'. shot_section rt w c s (Present (Some t'))
                   = (ls, r, Present (Some (t'\<lparr>rows := rows t' @ X\<rparr>))))"
proof -
  obtain l0 r0 d0 where x: "shotObjects rt w c s (Present (Some t)) = (l0, r0, d0)"
    by (cases "shotObjects rt w c s (Present (Some t))") auto
  from shotObjects_store [OF ign x] obtain X where
    X: "d0 = Present (Some (t\<lparr>rows := rows t @ X\<rparr>))"
       "\<And>t'. shotObjects rt w c s (Present (Some t'))
                   = (l0, r0, Present (Some (t'\<lparr>rows := rows t' @ X\<rparr>)))" by blast
  have "db' = Present (Some (t\<lparr>rows := rows t @ X\<rparr>)) \<and>
           (\<forall>t'. shot_section rt w c s (Present (Some t'))
                   = (ls, r, Present (Some (t'\<lparr>rows := rows t' @ X\<rparr>))))"
    using assms(2) x X by (auto simp: shot_section_def Let_def split: sum.splits list.splits)
  then show ?thesis by blast
qed

lemma shots_loop_store:
  assumes ign: "\<And>rs sql. sql_insert rt rs sql = sql_insert rt [] sql"
  shows "shots_loop rt w c shots (Present (Some t)) = (ls, r, db') \<Longrightarrow>
     \<exists>X. db' = Present (Some (t\<lparr>rows := rows t @ X\<rparr>)) \<and>
           (\<forall>t'. shots_loop rt w c shots (Present (Some t'))
                   = (ls, r, Present (Some (t'\<lparr>rows := rows t' @ X\<rparr>))))"
proof (induction shots arbitrary: t ls r db')
  case Nil
  then have "db' = Present (Some (t\<lparr>rows := rows t @ []\<rparr>)) \<and>
           (\<forall>t'. shots_loop rt w c [] (Present (Some t'))
                   = (ls, r, Present (Some (t'\<lparr>rows := rows t' @ []\<rparr>))))" by auto
  then show ?case by blast
next
  case (Cons s rest)
  obtain l1 r1 d1 where sec: "shot_section rt w c s (Present (Some t)) = (l1, r1, d1)"
    by (cases "shot_section rt w c s (Present (Some t))") auto
  from shot_section_store [OF ign sec] obtain X where
    X: "d1 = Present (Some (t\<lparr>rows := rows t @ X\<rparr>))"
       "\<And>t'. shot_section rt w c s (Present (Some t'))
                   = (l1, r1, Present (Some (t'\<lparr>rows := rows t' @ X\<rparr>)))" by blast
  show ?case
  proof (cases r1)
    case (Some e)
    with Cons.prems sec X have "db' = Present (Some (t\<lparr>rows := rows t @ X\<rparr>)) \<and>
           (\<forall>t'. shots_loop rt w c (s # rest) (Present (Some t'))
                   = (ls, r, Present (Some (t'\<lparr>rows := rows t' @ X\<rparr>))))" by auto
    then show ?thesis by blast
  next
    case None
    obtain l2 r2 d2 where lp:
      "shots_loop rt w c rest (Present (Some (t\<lparr>rows := rows t @ X\<rparr>))) = (l2, r2, d2)"
      by (cases "shots_loop rt w c rest (Present (Some (t\<lparr>rows := rows t @ X\<rparr>)))") auto
    from Cons.IH [OF lp] obtain Y where
      Y: "d2 = Present (Some (t\<lparr>rows := rows t @ X, rows := rows (t\<lparr>rows := rows t @ X\<rparr>) @ Y\<rparr>))"
         "\<And>t'. shots_loop rt w c rest (Present (Some t'))
                   = (l2, r2, Present (Some (t'\<lparr>rows := rows t' @ Y\<rparr>)))" by blast
    have "db' = Present (Some (t\<lparr>rows := rows t @ (X @ Y)\<rparr>)) \<and>
           (\<forall>t'. shots_loop rt w c (s # rest) (Present (Some t'))
                   = (ls, r, Present (Some (t'\<lparr>rows := rows t' @ (X @ Y)\<rparr>))))"
      using Cons.prems sec X None lp Y by auto
    then show ?thesis by blast
  qed
qed

lemma findShots_store:
  assumes ign: "\<And>rs sql. sql_insert rt rs sql = sql_insert rt [] sql"
    and "findShotsWithObjects rt w c (Present (Some t)) = (ls, r, db')"
  shows "\<exists>X. db' = Present (Some (t\<lparr>rows := rows t @ X\<rparr>)) \<and>
           (\<forall>t'. findShotsWithObjects rt w c (Present (Some t'))
                   = (ls, r, Present (Some (t'\<lparr>rows := rows t' @ X\<rparr>))))"
proof -
  obtain l0 where lp: "shots_loop rt w c (sort (shotList c)) (Present (Some t)) = (l0, r, db')"
    and ls: "ls = Planning (length (shotList c)) #
                  (if useDB c then [Log DEBUG ''Using database''] else []) @ l0"
    using assms(2)
    by (auto simp: findShotsWithObjects_def Let_def dbConnect_def split: prod.splits if_splits)
  from shots_loop_store [OF ign lp] obtain X where
    X: "db' = Present (Some (t\<lparr>rows := rows t @ X\<rparr>))"
       "\<And>t'. shots_loop rt w c (sort (shotList c)) (Present (Some t'))
                   = (l0, r, Present (Some (t'\<lparr>rows := rows t' @ X\<rparr>)))" by blast
  have "db' = Present (Some (t\<lparr>rows := rows t @ X\<rparr>)) \<and>
           (\<forall>t'. findShotsWithObjects rt w c (Present (Some t'))
                   = (ls, r, Present (Some (t'\<lparr>rows := rows t' @ X\<rparr>))))"
    using X ls by (cases "useDB c") (simp_all add: findShotsWithObjects_def Let_def dbConnect_def)
  then show ?thesis by blast
qed

lemma findShots_Absent:
  "useDB c \<Longrightarrow> findShotsWithObjects rt w c Absent =
       findShotsWithObjects rt w c (Present (Some \<lparr>schema = create_sql, rows = []\<rparr>))"
  by (simp add: findShotsWithObjects_def dbConnect_def)

lemma main_store:
  assumes ign: "\<And>rs sql. sql_insert rt rs sql = sql_insert rt [] sql"
    and "arg_show a \<noteq> []" and "main rt w a (Present (Some t)) = (ls, r, db')"
  shows "\<exists>X. db' = Present (Some (t\<lparr>rows := rows t @ X\<rparr>)) \<and>
           (\<forall>t'. main rt w a (Present (Some t'))
                   = (ls, r, Present (Some (t'\<lparr>rows := rows t' @ X\<rparr>))))"
proof -
  obtain l0 c where ex: "ExCrawler w a = (l0, Some c)"
    using assms(2) by (auto simp: ExCrawler_def)
  obtain l1 where f: "findShotsWithObjects rt w c (Present (Some t)) = (l1, r, db')"
    and ls: "ls = l0 @ l1"
    using assms(3) ex by (auto simp: main_def split: prod.splits)
  from findShots_store [OF ign f] obtain X where
    X: "db' = Present (Some (t\<lparr>rows := rows t @ X\<rparr>))"
       "\<And>t'. findShotsWithObjects rt w c (Present (Some t'))
                   = (l1, r, Present (Some (t'\<lparr>rows := rows t' @ X\<rparr>)))" by blast
  have "db' = Present (Some (t\<lparr>rows := rows t @ X\<rparr>)) \<and>
           (\<forall>t'. main rt w a (Present (Some t'))
                   = (ls, r, Present (Some (t'\<lparr>rows := rows t' @ X\<rparr>))))"
    using X ls ex by (simp add: main_def)
  then show ?thesis by blast
qed

lemma main_Absent:
  assumes "arg_db a" and "arg_show a \<noteq> []"
  shows "main rt w a Absent =
           main rt w a (Present (Some \<lparr>schema = create_sql, rows = []\<rparr>))"
proof -
  from assms obtain l0 c where ex: "ExCrawler w a = (l0, Some c)" and u: "useDB c"
    by (auto simp: ExCrawler_def)
  with findShots_Absent [of c rt w] show ?thesis
    by (simp add: main_def)
qed

lemma rows_doubled_when_store_not_read:
  assumes ign: "\<And>rs sql. sql_insert rt rs sql = sql_insert rt [] sql"
    and "arg_db a" and ne: "arg_show a \<noteq> []"
    and m1: "main rt w a Absent = (ls1, r1, db1)"
    and m2: "main rt w a db1 = (ls2, r2, db2)"
  shows "stored db2 = stored db1 @ stored db1"
    and "length (stored db2) = 2 * length (stored db1)"
proof -
  from m1 main_Absent [OF assms(2) ne, of rt w]
  have m1': "main rt w a (Present (Some \<lparr>schema = create_sql, rows = []\<rparr>)) = (ls1, r1, db1)"
    by simp
  from main_store [OF ign ne m1'] obtain X where
    X: "db1 = Present (Some (\<lparr>schema = create_sql, rows = []\<rparr>\<lparr>rows := rows \<lparr>schema = create_sql, rows = []\<rparr> @ X\<rparr>))"
       "\<And>t'. main rt w a (Present (Some t'))
                   = (ls1, r1, Present (Some (t'\<lparr>rows := rows t' @ X\<rparr>)))" by blast
  from m2 X(1) X(2) [of "\<lparr>schema = create_sql, rows = []\<rparr>\<lparr>rows := rows \<lparr>schema = create_sql, rows = []\<rparr> @ X\<rparr>"]
  have d2: "db2 = Present (Some \<lparr>schema = create_sql, rows = X @ X\<rparr>)" by simp
  from X(1) have d1: "db1 = Present (Some \<lparr>schema = create_sql, rows = X\<rparr>)" by simp
  from d1 d2 show "stored db2 = stored db1 @ stored db1" by simp
  from d1 d2 show "length (stored db2) = 2 * length (stored db1)" by simp
qed

text \<open>
  C5. The store is created only when absent and reused otherwise, but a second run
  does not always double the rows. \<^verbatim>\<open>insert\<close> pastes the values into the statement
  between double quotes as they are. The \<^verbatim>\<open>mb\<close> text of the object of \<^verbatim>\<open>shotE\<close>
  closes the quote and the value list, and the statement goes on with a select over
  the table: it adds its own row and a copy of every row stored. Three runs of the
  same crawl on the same store leave 1, 3 and 7 rows; doubling gives 2 after the
  second run.
\<close>

theorem quoted_value_breaks_doubling:
  "insert_sql (AList.update ''shot'' (Str ''shotE'') (snd (getObjInfo int_table copier)))
     = ''INSERT INTO entities VALUES ('' @ quoted ''shotE'' @ '', '' @ quoted ''copier'' @ '', '' @
       quoted ''None'' @ '', '' @ quoted ''1'' @ '', '' @ quoted ''1'' @ '', '' @ quoted ''1'' @
       '', '' @ quoted ''False'' @ '', '' @ quoted ''x'' @
       '') UNION ALL SELECT * FROM entities WHERE ('' @ quoted ''1'' @ ''='' @ quoted ''1'' @ '')''
   \<and> length (stored (snd (snd (main union_runtime demo_world quoting_args Absent)))) = 1
   \<and> length (stored (snd (snd (main union_runtime demo_world quoting_args
        (snd (snd (main union_runtime demo_world quoting_args Absent))))))) = 3
   \<and> length (stored (snd (snd (main union_runtime demo_world quoting_args
        (snd (snd (main union_runtime demo_world quoting_args
          (snd (snd (main union_runtime demo_world quoting_args Absent)))))))))) = 7"
  by code_simp

section \<open>Documents that fail to parse\<close>

text \<open>
  C6. When the document of a shot cannot be read or parsed, the failure is logged
  at error level, the shot yields no record and leaves the store as it was, and the
  loop goes on with the remaining shots: the run over the shot and the rest is the
  shot's header lines and the log call, followed by the run over the rest.
\<close>

theorem parse_failure_continues:
  "parse w (xmlFile (showname c) s) = Inl e \<longrightarrow>
     shotXML_objectsGet rt w c s db
       = ([Log ERROR (''ShotXML '' @ s @ '' parsing error: '' @ e)], Inr None, db)
     \<and> shotObjects rt w c s db
       = ([Log DEBUG (CHR 0x0A # ''Checking: '' @ s),
           Log ERROR (''ShotXML '' @ s @ '' parsing error: '' @ e)], Inr [], db)
     \<and> shot_section rt w c s db
       = (Header # (if \<not> verbose c then [ShotName s] else []) @
            [Log DEBUG (CHR 0x0A # ''Checking: '' @ s),
             Log ERROR (''ShotXML '' @ s @ '' parsing error: '' @ e)], None, db)
     \<and> shots_loop rt w c (s # rest) db
       = (case shots_loop rt w c rest db of
            (ls', r, db'') \<Rightarrow>
              ((Header # (if \<not> verbose c then [ShotName s] else []) @
                 [Log DEBUG (CHR 0x0A # ''Checking: '' @ s),
                  Log ERROR (''ShotXML '' @ s @ '' parsing error: '' @ e)]) @ ls', r, db''))"
proof
  assume p: "parse w (xmlFile (showname c) s) = Inl e"
  have x: "shotXML_objectsGet rt w c s db
       = ([Log ERROR (''ShotXML '' @ s @ '' parsing error: '' @ e)], Inr None, db)"
    using p by (simp add: shotXML_objectsGet_def)
  have o: "shotObjects rt w c s db
       = ([Log DEBUG (CHR 0x0A # ''Checking: '' @ s),
           Log ERROR (''ShotXML '' @ s @ '' parsing error: '' @ e)], Inr [], db)"
    using x by (simp add: shotObjects_def)
  have cu: "cull (objects c) [] = Inr []" by (simp add: cull_def)
  have sec: "shot_section rt w c s db
       = (Header # (if \<not> verbose c then [ShotName s] else []) @
            [Log DEBUG (CHR 0x0A # ''Checking: '' @ s),
             Log ERROR (''ShotXML '' @ s @ '' parsing error: '' @ e)], None, db)"
    using o cu by (simp add: shot_section_def Let_def)
  have lp: "shots_loop rt w c (s # rest) db
       = (case shots_loop rt w c rest db of
            (ls', r, db'') \<Rightarrow>
              ((Header # (if \<not> verbose c then [ShotName s] else []) @
                 [Log DEBUG (CHR 0x0A # ''Checking: '' @ s),
                  Log ERROR (''ShotXML '' @ s @ '' parsing error: '' @ e)]) @ ls', r, db''))"
    using sec by (simp split: prod.splits)
  from x o sec lp show "shotXML_objectsGet rt w c s db
       = ([Log ERROR (''ShotXML '' @ s @ '' parsing error: '' @ e)], Inr None, db)
     \<and> shotObjects rt w c s db
       = ([Log DEBUG (CHR 0x0A # ''Checking: '' @ s),
           Log ERROR (''ShotXML '' @ s @ '' parsing error: '' @ e)], Inr [], db)
     \<and> shot_section rt w c s db
       = (Header # (if \<not> verbose c then [ShotName s] else []) @
            [Log DEBUG (CHR 0x0A # ''Checking: '' @ s),
             Log ERROR (''ShotXML '' @ s @ '' parsing error: '' @ e)], None, db)
     \<and> shots_loop rt w c (s # rest) db
       = (case shots_loop rt w c rest db of
            (ls', r, db'') \<Rightarrow>
              ((Header # (if \<not> verbose c then [ShotName s] else []) @
                 [Log DEBUG (CHR 0x0A # ''Checking: '' @ s),
                  Log ERROR (''ShotXML '' @ s @ '' parsing error: '' @ e)]) @ ls', r, db''))"
    by blast
qed

theorem parse_failure_continues_witness:
  "parse demo_world (xmlFile (showname demo_crawler) ''shotC'') = Inl ''IOError''
   \<and> shotObjects demo_runtime demo_world demo_crawler ''shotC'' Absent
       = ([Log DEBUG (CHR 0x0A # ''Checking: shotC''),
           Log ERROR ''ShotXML shotC parsing error: IOError''], Inr [], Absent)
   \<and> shot_names (fst (shots_loop demo_runtime demo_world (demo_crawler\<lparr>useDB := False\<rparr>)
                          [''shotC'', ''shotD''] Absent))
       = [''shotC'', ''shotD'']
   \<and> map name_key (items (fst (shots_loop demo_runtime demo_world (demo_crawler\<lparr>useDB := False\<rparr>)
                          [''shotC'', ''shotD''] Absent)))
       = [Some ''propB'', Some ''propZ'']"
proof -
  have p: "parse demo_world (xmlFile (showname demo_crawler) ''shotC'') = Inl ''IOError''"
    by code_simp
  have p': "parse demo_world (xmlFile (showname (demo_crawler\<lparr>useDB := False\<rparr>)) ''shotC'') = Inl ''IOError''"
    by code_simp
  have rest: "shots_loop demo_runtime demo_world (demo_crawler\<lparr>useDB := False\<rparr>) [''shotD''] Absent
     = ([Header, ShotName ''shotD'', Log DEBUG (CHR 0x0A # ''Checking: shotD''),
         Log INFO ''Checking xml: .//demo/shotD/shotD.xml'',
         Item [(''name'', Str ''propB''), (''shotVer'', Str ''2''),
               (''mb'', Str ''/assets/propB.mb''), (''objName'', Str ''Chair''),
               (''objVer'', Str ''7''), (''objHighest'', Str ''7''),
               (''ood'', Bool False), (''shot'', Str ''shotD'')],
         Item [(''name'', Str ''propZ''), (''shotVer'', Str ''1''),
               (''mb'', Str ''/assets/propZ.mb''), (''objName'', Str ''Table''),
               (''objVer'', Str ''2''), (''objHighest'', Str ''2''),
               (''ood'', Bool False), (''shot'', Str ''shotD'')]], None, Absent)"
    by code_simp
  note t1 = parse_failure_continues [where w = demo_world and c = demo_crawler and s = "''shotC''"
      and e = "''IOError''" and rt = demo_runtime and db = Absent, rule_format, OF p]
  note t2 = parse_failure_continues [where w = demo_world and c = "demo_crawler\<lparr>useDB := False\<rparr>"
      and s = "''shotC''" and e = "''IOError''" and rt = demo_runtime and db = Absent
      and rest = "[''shotD'']", rule_format, OF p']
  have a: "shotObjects demo_runtime demo_world demo_crawler ''shotC'' Absent
       = ([Log DEBUG (CHR 0x0A # ''Checking: shotC''),
           Log ERROR ''ShotXML shotC parsing error: IOError''], Inr [], Absent)"
    using t1 by simp
  have b: "shots_loop demo_runtime demo_world (demo_crawler\<lparr>useDB := False\<rparr>) [''shotC'', ''shotD''] Absent
     = ((Header # (if \<not> verbose (demo_crawler\<lparr>useDB := False\<rparr>) then [ShotName ''shotC''] else []) @
                 [Log DEBUG (CHR 0x0A # ''Checking: '' @ ''shotC''),
                  Log ERROR (''ShotXML '' @ ''shotC'' @ '' parsing error: '' @ ''IOError'')]) @
         [Header, ShotName ''shotD'', Log DEBUG (CHR 0x0A # ''Checking: shotD''),
         Log INFO ''Checking xml: .//demo/shotD/shotD.xml'',
         Item [(''name'', Str ''propB''), (''shotVer'', Str ''2''),
               (''mb'', Str ''/assets/propB.mb''), (''objName'', Str ''Chair''),
               (''objVer'', Str ''7''), (''objHighest'', Str ''7''),
               (''ood'', Bool False), (''shot'', Str ''shotD'')],
         Item [(''name'', Str ''propZ''), (''shotVer'', Str ''1''),
               (''mb'', Str ''/assets/propZ.mb''), (''objName'', Str ''Table''),
               (''objVer'', Str ''2''), (''objHighest'', Str ''2''),
               (''ood'', Bool False), (''shot'', Str ''shotD'')]], None, Absent)"
    using t2 [THEN conjunct2, THEN conjunct2, THEN conjunct2] rest by simp
  have c: "shot_names (fst (shots_loop demo_runtime demo_world (demo_crawler\<lparr>useDB := False\<rparr>)
                          [''shotC'', ''shotD''] Absent)) = [''shotC'', ''shotD'']"
    unfolding b by (simp add: demo_crawler_def)
  have d: "map name_key (items (fst (shots_loop demo_runtime demo_world (demo_crawler\<lparr>useDB := False\<rparr>)
                          [''shotC'', ''shotD''] Absent))) = [Some ''propB'', Some ''propZ'']"
    unfolding b by (simp add: demo_crawler_def name_key_def get_def)
  from p a c d show ?thesis by blast
qed

section \<open>Shots without records, objects without a record\<close>

text \<open>
  C4 as stated fails: the document of \<^verbatim>\<open>shotB\<close> has no object entry, the shot
  has no record, and the report still has the column header line for it and, unless
  verbose, the line with its name. Both are printed before the objects are fetched.
\<close>

theorem empty_shot_section_printed:
  "getElementsByTagName ''Object'' [Element ''Shot'' [] []] = []
   \<and> fst (snd (shotObjects demo_runtime demo_world (demo_crawler\<lparr>useDB := False\<rparr>) ''shotB'' Absent))
        = Inr []
   \<and> fst (shot_section demo_runtime demo_world (demo_crawler\<lparr>useDB := False\<rparr>) ''shotB'' Absent)
        = [Header, ShotName ''shotB'', Log DEBUG (CHR 0x0A # ''Checking: shotB''),
           Log INFO ''Checking xml: .//demo/shotB/shotB.xml'']
   \<and> fst (findShotsWithObjects demo_runtime demo_world
             (demo_crawler\<lparr>shotList := [''shotB''], useDB := False\<rparr>) Absent)
        = [Planning 1, Header, ShotName ''shotB'', Log DEBUG (CHR 0x0A # ''Checking: shotB''),
           Log INFO ''Checking xml: .//demo/shotB/shotB.xml'']
   \<and> fst (findShotsWithObjects demo_runtime demo_world
             (demo_crawler\<lparr>shotList := [''shotB''], verbose := True, useDB := False\<rparr>) Absent)
        = [Planning 1, Header, Log DEBUG (CHR 0x0A # ''Checking: shotB''),
           Log INFO ''Checking xml: .//demo/shotB/shotB.xml'']"
  by code_simp

lemma commit_nothing: "commit db [] = db"
  by (cases db) (auto simp: commit_def split: option.splits)

text \<open>
  C4, amended. A shot that has no record left after extraction and filtering gets
  no record line: its part of the report is the column header line, the line with
  its name unless verbose, and the log calls of the extraction. A document with no
  object entry yields no record and leaves the store as it was.
\<close>

theorem empty_shot_prints_no_record:
  "(shotObjects rt w c s db = (ls0, Inr obs, db') \<and> cull (objects c) obs = Inr [] \<longrightarrow>
      shot_section rt w c s db
        = (Header # (if \<not> verbose c then [ShotName s] else []) @ ls0, None, db')
      \<and> items (fst (shot_section rt w c s db)) = [])
   \<and> (parse w (xmlFile (showname c) s) = Inr doc \<and> getElementsByTagName ''Object'' doc = [] \<longrightarrow>
        shotObjects rt w c s db
          = ([Log DEBUG (CHR 0x0A # ''Checking: '' @ s),
              Log INFO (''Checking xml: '' @ xmlFile (showname c) s)], Inr [], db)
        \<and> shot_section rt w c s db
          = (Header # (if \<not> verbose c then [ShotName s] else []) @
               [Log DEBUG (CHR 0x0A # ''Checking: '' @ s),
                Log INFO (''Checking xml: '' @ xmlFile (showname c) s)], None, db))"
proof (intro conjI impI)
  assume a: "shotObjects rt w c s db = (ls0, Inr obs, db') \<and> cull (objects c) obs = Inr []"
  then show sec: "shot_section rt w c s db
        = (Header # (if \<not> verbose c then [ShotName s] else []) @ ls0, None, db')"
    by (simp add: shot_section_def Let_def)
  from a shotObjects_lines [of rt w c s db ls0 "Inr obs" db'] have "items ls0 = []" by simp
  then show "items (fst (shot_section rt w c s db)) = []"
    by (simp add: sec items_append)
next
  assume a: "parse w (xmlFile (showname c) s) = Inr doc \<and> getElementsByTagName ''Object'' doc = []"
  then have x: "shotXML_objectsGet rt w c s db
          = ([Log INFO (''Checking xml: '' @ xmlFile (showname c) s)], Inr (Some []), db)"
    by (simp add: shotXML_objectsGet_def Let_def commit_nothing)
  then show o: "shotObjects rt w c s db
          = ([Log DEBUG (CHR 0x0A # ''Checking: '' @ s),
              Log INFO (''Checking xml: '' @ xmlFile (showname c) s)], Inr [], db)"
    by (simp add: shotObjects_def)
  have cu: "cull (objects c) [] = Inr []" by (simp add: cull_def)
  show "shot_section rt w c s db
          = (Header # (if \<not> verbose c then [ShotName s] else []) @
               [Log DEBUG (CHR 0x0A # ''Checking: '' @ s),
                Log INFO (''Checking xml: '' @ xmlFile (showname c) s)], None, db)"
    using o cu by (simp add: shot_section_def Let_def)
qed

theorem empty_shot_prints_no_record_witness:
  "parse demo_world (xmlFile (showname demo_crawler) ''shotB'') = Inr [Element ''Shot'' [] []]
   \<and> getElementsByTagName ''Object'' [Element ''Shot'' [] []] = []
   \<and> shot_section demo_runtime demo_world demo_crawler ''shotB'' Absent
        = ([Header, ShotName ''shotB'', Log DEBUG (CHR 0x0A # ''Checking: shotB''),
            Log INFO ''Checking xml: .//demo/shotB/shotB.xml''], None, Absent)
   \<and> items (fst (shot_section demo_runtime demo_world demo_crawler ''shotB'' Absent)) = []"
proof -
  have p: "parse demo_world (xmlFile (showname demo_crawler) ''shotB'') = Inr [Element ''Shot'' [] []]"
    by code_simp
  have g: "getElementsByTagName ''Object'' [Element ''Shot'' [] []] = []"
    by code_simp
  have xf: "xmlFile (showname demo_crawler) ''shotB'' = ''.//demo/shotB/shotB.xml''"
    by code_simp
  have v: "\<not> verbose demo_crawler" by (simp add: demo_crawler_def)
  note t = empty_shot_prints_no_record [where w = demo_world and c = demo_crawler and s = "''shotB''"
      and doc = "[Element ''Shot'' [] []]" and rt = demo_runtime and db = Absent,
      THEN conjunct2, rule_format, OF conjI, OF p g]
  from t v xf have sec: "shot_section demo_runtime demo_world demo_crawler ''shotB'' Absent
        = ([Header, ShotName ''shotB'', Log DEBUG (CHR 0x0A # ''Checking: shotB''),
            Log INFO ''Checking xml: .//demo/shotB/shotB.xml''], None, Absent)"
    by simp
  have "items (fst (shot_section demo_runtime demo_world demo_crawler ''shotB'' Absent)) = []"
    unfolding sec by simp
  with p g sec show ?thesis by blast
qed

text \<open>
  C3. An object entry without a child element: the extractor returns the empty
  dictionary and raises nothing, but the caller keeps that dictionary. It is
  stamped with the shot, inserted as a row whose other values are \<^verbatim>\<open>None\<close>,
  printed as a record line, and with an object filter given the test
  \<^verbatim>\<open>obj in ob.get('objName')\<close> on it raises \<^verbatim>\<open>TypeError\<close>, which ends the run.
\<close>

theorem failed_record_propagated:
  "snd (getObjInfo int_table childless) = []
   \<and> fst (snd (shotXML_objectsGet demo_runtime demo_world demo_crawler ''shotA''
                  (Present (Some \<lparr>schema = create_sql, rows = []\<rparr>))))
       = Inr (Some [[(''name'', Str ''charA''), (''shotVer'', Str ''3''),
                     (''mb'', Str ''/assets/charA.mb''), (''objName'', Str ''CharRig''),
                     (''objVer'', Str ''4''), (''objHighest'', Str ''5''), (''ood'', Bool True),
                     (''shot'', Str ''shotA'')],
                    [(''shot'', Str ''shotA'')]])
   \<and> insert_values [(''shot'', Str ''shotA'')]
       = [''shotA'', ''None'', ''None'', ''None'', ''None'', ''None'', ''None'', ''None'']
   \<and> length (stored (snd (snd (shotXML_objectsGet demo_runtime demo_world demo_crawler ''shotA''
                  (Present (Some \<lparr>schema = create_sql, rows = []\<rparr>)))))) = 2
   \<and> items (fst (shot_section demo_runtime demo_world demo_crawler ''shotA''
                  (Present (Some \<lparr>schema = create_sql, rows = []\<rparr>))))
       = [[(''shot'', Str ''shotA'')],
          [(''name'', Str ''charA''), (''shotVer'', Str ''3''),
           (''mb'', Str ''/assets/charA.mb''), (''objName'', Str ''CharRig''),
           (''objVer'', Str ''4''), (''objHighest'', Str ''5''), (''ood'', Bool True),
           (''shot'', Str ''shotA'')]]
   \<and> fst (snd (shot_section demo_runtime demo_world (demo_crawler\<lparr>objects := [''char'']\<rparr>) ''shotA''
                  (Present (Some \<lparr>schema = create_sql, rows = []\<rparr>))))
       = Some TypeError"
  by code_simp

end
